theory Spec2Isabelle
  imports Complex_Main
begin

section \<open>Python values used by the view layer\<close>

text \<open>
  Strings are lists of characters, each read as one code point below 256.  The
  white-space set is the one \<^verbatim>\<open>str.strip()\<close>, \<^verbatim>\<open>str.isspace()\<close> and the pattern
  class \<^verbatim>\<open>\s\<close> share in that range: U+0009..U+000D, U+001C..U+001F, U+0020, U+0085 and
  U+00A0.  The decimal digits \<^verbatim>\<open>\d\<close> matches there are 0..9.
\<close>

definition py_isspace :: "char \<Rightarrow> bool" where
  "py_isspace c = (of_char c \<in> {9, 10, 11, 12, 13, 28, 29, 30, 31, 32, 133, 160 :: nat})"

definition py_isdigit :: "char \<Rightarrow> bool" where
  "py_isdigit c = (c \<in> set ''0123456789'')"

definition py_strip :: "string \<Rightarrow> string" where
  \<comment> \<open>\<^verbatim>\<open>s.strip()\<close>\<close>
  "py_strip s = rev (dropWhile py_isspace (rev (dropWhile py_isspace s)))"

definition py_truthy :: "string \<Rightarrow> bool" where
  \<comment> \<open>\<^verbatim>\<open>bool(s)\<close> of a string\<close>
  "py_truthy s = (s \<noteq> [])"

fun starts_with :: "string \<Rightarrow> string \<Rightarrow> bool" where
  "starts_with [] s = True"
| "starts_with (p # ps) [] = False"
| "starts_with (p # ps) (c # cs) = (p = c \<and> starts_with ps cs)"

fun py_in :: "string \<Rightarrow> string \<Rightarrow> bool" where
  \<comment> \<open>\<^verbatim>\<open>sub in s\<close> on strings\<close>
  "py_in sub [] = (sub = [])"
| "py_in sub (c # cs) = (starts_with sub (c # cs) \<or> py_in sub cs)"

definition digit_char :: "nat \<Rightarrow> char" where
  "digit_char d = ''0123456789'' ! (d mod 10)"

fun str_nat :: "nat \<Rightarrow> string" where
  \<comment> \<open>\<^verbatim>\<open>str(n)\<close> of a non-negative integer\<close>
  "str_nat n = (if n < 10 then [digit_char n] else str_nat (n div 10) @ [digit_char n])"

declare str_nat.simps [simp del]

definition str_int :: "int \<Rightarrow> string" where
  \<comment> \<open>\<^verbatim>\<open>str(i)\<close>, as an f-string formats \<^verbatim>\<open>{idx + 1}\<close>\<close>
  "str_int i = (if i < 0 then CHR ''-'' # str_nat (nat (- i)) else str_nat (nat i))"

text \<open>
  A finite float is modelled by its exact rational value.  \<^verbatim>\<open>f"{x:.0f}"\<close> and
  \<^verbatim>\<open>f"{x:.1f}"\<close> round that exact value to the nearest multiple of 1 (of 1/10), a tie
  going to the even neighbour, and print sign, integer part and, for one decimal, the
  digit after the point.  (Negative zero, infinities and NaN have no rational value and
  are outside the model.)
\<close>

definition round_half_even :: "rat \<Rightarrow> nat" where
  "round_half_even x =
     (let n = nat \<lfloor>x\<rfloor>; r = x - of_int \<lfloor>x\<rfloor>
      in if r < 1 / 2 then n else if 1 / 2 < r then n + 1 else if even n then n else n + 1)"

definition format_f0 :: "rat \<Rightarrow> string" where
  "format_f0 x = (if x < 0 then ''-'' else '''') @ str_nat (round_half_even \<bar>x\<bar>)"

definition format_f1 :: "rat \<Rightarrow> string" where
  "format_f1 x =
     (let n = round_half_even (\<bar>x\<bar> * 10)
      in (if x < 0 then ''-'' else '''') @ str_nat (n div 10) @ ''.'' @ [digit_char n])"

text \<open>
  Handlers registered by the controller are opaque to the view: a handler is known by
  its identity, and every invocation is appended to a trace with the argument it got.
\<close>

type_synonym handler = nat

record outcome =
  action :: string
  o_idx :: int
  o_name :: "string option"
  o_path :: "string option"

datatype call_arg = NoArgs | IdxArg int | OutcomeArg outcome

type_synonym invocation = "handler \<times> call_arg"

type_synonym category = "string \<rightharpoonup> string"

definition dict_get :: "category \<Rightarrow> string \<Rightarrow> string \<Rightarrow> string" where
  \<comment> \<open>\<^verbatim>\<open>d.get(key, default)\<close>\<close>
  "dict_get d k dflt = (case d k of None \<Rightarrow> dflt | Some v \<Rightarrow> v)"

datatype py_error = ZeroDivisionError | IndexError | ItemNotFound

section \<open>The status line pattern of \<^verbatim>\<open>MainWindow.update_status\<close>\<close>

text \<open>
  \<^verbatim>\<open>re.match(r'^(.*?)(\s*\(\d+/\d+\))$', text)\<close>.  \<open>counter_tail\<close> decides whether a
  suffix is \<^verbatim>\<open>\s*\(\d+/\d+\)\<close> followed by the end of the string, where \<^verbatim>\<open>$\<close> also
  matches just before one final newline; it returns the text of group 2.  The lazy
  group 1 takes the shortest prefix that works and never crosses a newline.
\<close>

definition digits_then :: "char \<Rightarrow> string \<Rightarrow> (string \<times> string) option" where
  \<comment> \<open>\<^verbatim>\<open>\d+\<close> followed by the character \<open>c\<close>: the digits and what follows \<open>c\<close>\<close>
  "digits_then c s =
     (if takeWhile py_isdigit s = [] then None
      else (case dropWhile py_isdigit s of
              [] \<Rightarrow> None
            | x # r \<Rightarrow> if x = c then Some (takeWhile py_isdigit s, r) else None))"

definition counter_tail :: "string \<Rightarrow> string option" where
  "counter_tail s =
     (case dropWhile py_isspace s of
        [] \<Rightarrow> None
      | c0 # r1 \<Rightarrow>
          if c0 \<noteq> CHR ''('' then None
          else (case digits_then (CHR ''/'') r1 of
                  None \<Rightarrow> None
                | Some (d1, r3) \<Rightarrow>
                    (case digits_then (CHR '')'') r3 of
                       None \<Rightarrow> None
                     | Some (d2, r5) \<Rightarrow>
                         if r5 = [] \<or> r5 = [CHR 0x0A]
                         then Some (takeWhile py_isspace s @ ''('' @ d1 @ ''/'' @ d2 @ '')'')
                         else None)))"

fun status_match :: "string \<Rightarrow> string \<Rightarrow> (string \<times> string) option" where
  "status_match acc [] =
     (case counter_tail [] of Some g2 \<Rightarrow> Some (rev acc, g2) | None \<Rightarrow> None)"
| "status_match acc (c # cs) =
     (case counter_tail (c # cs) of
        Some g2 \<Rightarrow> Some (rev acc, g2)
      | None \<Rightarrow> if c = CHR 0x0A then None else status_match (c # acc) cs)"

section \<open>The Tkinter front-end: \<^verbatim>\<open>MainWindow\<close> (main_window.py)\<close>

text \<open>
  A Tk button of the category grid: its label, relief, grid cell, and what is bound to
  \<^verbatim>\<open><Button-1>\<close> and \<^verbatim>\<open><Button-3>\<close>.  A binding made by \<^verbatim>\<open>bind_category\<close> is the closure
  \<^verbatim>\<open>handle_click\<close>, which is determined by the handler it calls and the index it passes.
\<close>

record tk_button =
  btn_text :: string
  btn_relief :: string
  btn_row :: nat
  btn_col :: nat
  btn_button1 :: "(handler \<times> int) option"
  btn_button3 :: "(handler \<times> int) option"

type_synonym photo = nat

record main_window =
  mw_status :: string
  mw_image :: "photo option"
  mw_photo_ref :: "photo option"
  mw_next_command :: "handler option"
  mw_prev_command :: "handler option"
  mw_select_command :: "handler option"
  mw_cat_buttons :: "tk_button list"
  mw_click_callback :: "handler option"
  mw_right_callback :: "handler option"
  mw_current_columns :: nat
  mw_keys_bound :: bool
  mw_idle :: "nat list"
  mw_calls :: "invocation list"

definition mw_init :: main_window where
  \<comment> \<open>\<^verbatim>\<open>MainWindow.__init__\<close>; the label's image option starts empty\<close>
  "mw_init = \<lparr>mw_status = ''Select a source folder.'', mw_image = None, mw_photo_ref = None,
     mw_next_command = None, mw_prev_command = None, mw_select_command = None,
     mw_cat_buttons = [], mw_click_callback = None, mw_right_callback = None,
     mw_current_columns = 9, mw_keys_bound = False, mw_idle = [], mw_calls = []\<rparr>"

definition mw_on_next :: "handler \<Rightarrow> main_window \<Rightarrow> main_window" where
  "mw_on_next callback w = w\<lparr>mw_next_command := Some callback\<rparr>"

definition mw_on_prev :: "handler \<Rightarrow> main_window \<Rightarrow> main_window" where
  "mw_on_prev callback w = w\<lparr>mw_prev_command := Some callback\<rparr>"

definition mw_on_select_folder :: "handler \<Rightarrow> main_window \<Rightarrow> main_window" where
  "mw_on_select_folder callback w = w\<lparr>mw_select_command := Some callback\<rparr>"

definition mw_show_image :: "photo option \<Rightarrow> main_window \<Rightarrow> main_window" where
  \<comment> \<open>\<^verbatim>\<open>image=''\<close> removes the label's image: \<open>None\<close>\<close>
  "mw_show_image ph w =
     (case ph of
        Some p \<Rightarrow> w\<lparr>mw_image := Some p, mw_photo_ref := Some p\<rparr>
      | None \<Rightarrow> w\<lparr>mw_image := None, mw_photo_ref := None\<rparr>)"

definition mw_status_text :: "string \<Rightarrow> rat option \<Rightarrow> string" where
  \<comment> \<open>the value \<^verbatim>\<open>MainWindow.update_status\<close> gives the label\<close>
  "mw_status_text txt file_size_kb =
     (case file_size_kb of
        None \<Rightarrow> txt
      | Some kb \<Rightarrow>
          (case status_match [] txt of
             Some (g1, counter) \<Rightarrow>
               py_strip g1 @ ('' ['' @ format_f0 kb @ '' KB]'') @ '' '' @ counter
           | None \<Rightarrow> txt @ '' ['' @ format_f0 kb @ '' KB]''))"

definition mw_update_status :: "string \<Rightarrow> rat option \<Rightarrow> main_window \<Rightarrow> main_window" where
  "mw_update_status txt file_size_kb w = w\<lparr>mw_status := mw_status_text txt file_size_kb\<rparr>"

definition cat_truthy :: "category \<Rightarrow> string \<Rightarrow> bool" where
  \<comment> \<open>truth value of \<^verbatim>\<open>cat.get(key)\<close>: a missing key gives \<^verbatim>\<open>None\<close>, which is false\<close>
  "cat_truthy c k = (case c k of None \<Rightarrow> False | Some v \<Rightarrow> v \<noteq> [])"

definition mw_button_text :: "category list \<Rightarrow> nat \<Rightarrow> string" where
  "mw_button_text categories i =
     (if i < length categories \<and> cat_truthy (categories ! i) ''name''
           \<and> cat_truthy (categories ! i) ''path''
      then str_nat (i + 1) @ '': '' @ the ((categories ! i) ''name'')
      else str_nat (i + 1) @ '': Select a category'')"

definition mw_new_button :: "category list \<Rightarrow> nat \<Rightarrow> nat \<Rightarrow> tk_button" where
  \<comment> \<open>one round of the loop \<^verbatim>\<open>for i in range(9)\<close>; a new button is raised and unbound\<close>
  "mw_new_button categories columns i =
     \<lparr>btn_text = mw_button_text categories i, btn_relief = ''raised'',
      btn_row = i div columns, btn_col = i mod columns,
      btn_button1 = None, btn_button3 = None\<rparr>"

definition mw_rebuild_category_grid ::
    "category list \<Rightarrow> nat \<Rightarrow> main_window \<Rightarrow> py_error + main_window" where
  \<comment> \<open>\<^verbatim>\<open>_rebuild_category_grid\<close>; the column and row weights are layout only and left out\<close>
  "mw_rebuild_category_grid categories columns w =
     (if columns = 0 then Inl ZeroDivisionError
      else Inr (w\<lparr>mw_cat_buttons :=
                  mw_cat_buttons w @ map (mw_new_button categories columns) [0..<9]\<rparr>))"

definition mw_set_categories :: "category list \<Rightarrow> main_window \<Rightarrow> py_error + main_window" where
  "mw_set_categories categories w =
     mw_rebuild_category_grid categories (mw_current_columns w) (w\<lparr>mw_cat_buttons := []\<rparr>)"

definition py_index :: "'a list \<Rightarrow> int \<Rightarrow> nat option" where
  \<comment> \<open>the position \<^verbatim>\<open>xs[i]\<close> reads: a negative index counts from the end\<close>
  "py_index xs i =
     (if 0 \<le> i \<and> i < int (length xs) then Some (nat i)
      else if i < 0 \<and> - int (length xs) \<le> i then Some (nat (int (length xs) + i))
      else None)"

definition mw_bind_category ::
    "int \<Rightarrow> handler \<Rightarrow> handler \<Rightarrow> main_window \<Rightarrow> py_error + main_window" where
  "mw_bind_category idx on_click on_right_click w =
     (case py_index (mw_cat_buttons w) idx of
        None \<Rightarrow> Inl IndexError
      | Some p \<Rightarrow>
          Inr (w\<lparr>mw_cat_buttons :=
                   (mw_cat_buttons w)[p := (mw_cat_buttons w ! p)
                      \<lparr>btn_button1 := Some (on_click, idx),
                       btn_button3 := Some (on_right_click, idx)\<rparr>],
                 mw_click_callback := Some on_click,
                 mw_right_callback := Some on_right_click\<rparr>))"

definition mw_bind_keyboard_shortcuts :: "main_window \<Rightarrow> main_window" where
  "mw_bind_keyboard_shortcuts w = w\<lparr>mw_keys_bound := True\<rparr>"

definition mw_handle_click :: "nat \<Rightarrow> handler \<times> int \<Rightarrow> main_window \<Rightarrow> main_window" where
  \<comment> \<open>\<^verbatim>\<open>handle_click\<close> of the button at position \<open>p\<close>: press, call, schedule the release\<close>
  "mw_handle_click p b w =
     w\<lparr>mw_cat_buttons := (mw_cat_buttons w)[p := (mw_cat_buttons w ! p)\<lparr>btn_relief := ''sunken''\<rparr>],
       mw_calls := mw_calls w @ [(fst b, IdxArg (snd b))],
       mw_idle := mw_idle w @ [p]\<rparr>"

definition mw_left_click :: "nat \<Rightarrow> main_window \<Rightarrow> main_window" where
  \<comment> \<open>Tk delivers \<^verbatim>\<open><Button-1>\<close> to the button at position \<open>p\<close> of the grid\<close>
  "mw_left_click p w =
     (if p < length (mw_cat_buttons w)
      then (case btn_button1 (mw_cat_buttons w ! p) of
              Some b \<Rightarrow> mw_handle_click p b w | None \<Rightarrow> w)
      else w)"

definition mw_right_click :: "nat \<Rightarrow> main_window \<Rightarrow> main_window" where
  "mw_right_click p w =
     (if p < length (mw_cat_buttons w)
      then (case btn_button3 (mw_cat_buttons w ! p) of
              Some b \<Rightarrow> mw_handle_click p b w | None \<Rightarrow> w)
      else w)"

definition mw_press_digit :: "nat \<Rightarrow> main_window \<Rightarrow> main_window" where
  \<comment> \<open>the key \<^verbatim>\<open>str(i+1)\<close>, bound for \<open>i\<close> in \<^verbatim>\<open>range(9)\<close> to
      \<^verbatim>\<open>self.category_click_callback(idx) if self.category_click_callback else None\<close>\<close>
  "mw_press_digit i w =
     (if mw_keys_bound w \<and> i < 9
      then (case mw_click_callback w of
              Some h \<Rightarrow> w\<lparr>mw_calls := mw_calls w @ [(h, IdxArg (int i))]\<rparr>
            | None \<Rightarrow> w)
      else w)"

section \<open>The Dear PyGui front-end: \<^verbatim>\<open>DearPyGuiView\<close> (dearpygui_view.py)\<close>

text \<open>
  One record holds the attributes of the view object and the part of the Dear PyGui
  context the view and the dialogs use (a mock of the toolkit: items with the options
  the code sets, fresh identifiers, timers that have been started).  Methods whose
  Python name starts with an underscore carry the prefix \<open>u_\<close>.  Themes are named by
  their keys in \<^verbatim>\<open>self._themes\<close>.
\<close>

record button =
  b_label :: string
  b_theme :: string
  b_enabled :: bool

record cat_button =
  cb_label :: string
  cb_theme :: string
  cb_user_data :: int
  cb_parent :: nat
  cb_tooltip :: "string option"
  cb_right_data :: "int option"

record image_widget =
  iw_texture :: string
  iw_width :: nat
  iw_height :: nat
  iw_label :: string

datatype texture = Blank | Pixels "nat list"

record pil_image =
  im_mode :: string
  im_rgba :: "nat list"

datatype fb_key = CatKey int | NavKey string

datatype fb_val = NoTimer | TimerObj nat | FlagTrue

datatype restore = RestoreCategory nat int | RestoreNav string string

record timer =
  tm_restore :: restore
  tm_cancelled :: bool
  tm_fired :: bool

record cat_form =
  f_view :: bool
  f_idx :: int
  f_callback :: handler
  f_name :: string
  f_folder :: string
  f_ok_enabled :: bool

datatype content = Message string | CategoryForm cat_form | HowTo | About bool

datatype wtag = MsgWin nat | CfgWin int nat | HowToWin nat | AboutWin

record window =
  w_label :: string
  w_modal :: bool
  w_shown :: bool
  w_pos :: "(int \<times> int) option"
  w_content :: content

record gui =
  view_instance :: bool
  callbacks :: "string \<rightharpoonup> handler"
  category_callbacks :: "int \<rightharpoonup> handler \<times> handler"
  modal_open :: bool
  category_button_ids :: "int \<rightharpoonup> nat"
  feedback_timers :: "fb_key \<rightharpoonup> fb_val"
  nav_button_ids :: "string \<rightharpoonup> string"
  keyboard_handlers_registered :: bool
  uuid_next :: nat
  uuid4_next :: nat
  buttons :: "string \<rightharpoonup> button"
  cat_groups :: "nat list"
  cat_items :: "nat \<rightharpoonup> cat_button"
  image_display :: "image_widget option"
  image_texture :: texture
  status_text :: string
  selected_folder_path :: string
  windows :: "wtag \<rightharpoonup> window"
  viewport :: "int \<times> int"
  timers :: "nat \<rightharpoonup> timer"
  timer_next :: nat
  calls :: "invocation list"

definition IMAGE_DISPLAY_WIDTH :: nat where
  "IMAGE_DISPLAY_WIDTH = 576"

definition IMAGE_DISPLAY_HEIGHT :: nat where
  "IMAGE_DISPLAY_HEIGHT = 360"

definition init_view :: gui where
  \<comment> \<open>\<^verbatim>\<open>DearPyGuiView.__init__\<close>, with the viewport at its default size\<close>
  "init_view =
     \<lparr>view_instance = True, callbacks = Map.empty, category_callbacks = Map.empty,
      modal_open = False, category_button_ids = Map.empty, feedback_timers = Map.empty,
      nav_button_ids = [''prev'' \<mapsto> ''prev_button'', ''next'' \<mapsto> ''next_button''],
      keyboard_handlers_registered = False, uuid_next = 0, uuid4_next = 0,
      buttons =
        [''select_folder_button'' \<mapsto>
           \<lparr>b_label = ''Select Source Folder'', b_theme = ''select_folder'', b_enabled = True\<rparr>,
         ''reset_button'' \<mapsto> \<lparr>b_label = ''Reset'', b_theme = ''reset'', b_enabled = True\<rparr>,
         ''prev_button'' \<mapsto> \<lparr>b_label = ''<'', b_theme = ''prev'', b_enabled = True\<rparr>,
         ''next_button'' \<mapsto> \<lparr>b_label = ''>'', b_theme = ''next'', b_enabled = True\<rparr>],
      cat_groups = [], cat_items = Map.empty,
      image_display =
        Some \<lparr>iw_texture = ''image_texture'', iw_width = IMAGE_DISPLAY_WIDTH,
              iw_height = IMAGE_DISPLAY_HEIGHT, iw_label = []\<rparr>,
      image_texture = Blank, status_text = ''Select a source folder'',
      selected_folder_path = ''No folder selected'', windows = Map.empty,
      viewport = (1200, 730), timers = Map.empty, timer_next = 0, calls = []\<rparr>"

definition invoke :: "handler \<Rightarrow> call_arg \<Rightarrow> gui \<Rightarrow> gui" where
  \<comment> \<open>a call of a registered handler: recorded, with no effect on the view\<close>
  "invoke h a s = s\<lparr>calls := calls s @ [(h, a)]\<rparr>"

subsection \<open>Registration and state setters\<close>

definition on_select_folder :: "handler \<Rightarrow> gui \<Rightarrow> gui" where
  "on_select_folder cb s = s\<lparr>callbacks := (callbacks s)(''select_folder'' \<mapsto> cb)\<rparr>"

definition on_next :: "handler \<Rightarrow> gui \<Rightarrow> gui" where
  "on_next cb s = s\<lparr>callbacks := (callbacks s)(''next'' \<mapsto> cb)\<rparr>"

definition on_prev :: "handler \<Rightarrow> gui \<Rightarrow> gui" where
  "on_prev cb s = s\<lparr>callbacks := (callbacks s)(''prev'' \<mapsto> cb)\<rparr>"

definition set_modal_open :: "bool \<Rightarrow> gui \<Rightarrow> gui" where
  "set_modal_open is_open s = s\<lparr>modal_open := is_open\<rparr>"

definition set_select_folder_button_enabled :: "bool \<Rightarrow> gui \<Rightarrow> gui" where
  "set_select_folder_button_enabled en s =
     (case buttons s ''select_folder_button'' of
        None \<Rightarrow> s
      | Some b \<Rightarrow> s\<lparr>buttons := (buttons s)(''select_folder_button'' \<mapsto> b\<lparr>b_enabled := en\<rparr>)\<rparr>)"

definition bind_category :: "int \<Rightarrow> handler \<Rightarrow> handler \<Rightarrow> gui \<Rightarrow> gui" where
  "bind_category idx on_click on_right_click s =
     s\<lparr>category_callbacks := (category_callbacks s)(idx \<mapsto> (on_click, on_right_click))\<rparr>"

definition bind_keyboard_shortcuts :: "gui \<Rightarrow> gui" where
  "bind_keyboard_shortcuts s =
     (if keyboard_handlers_registered s then s else s\<lparr>keyboard_handlers_registered := True\<rparr>)"

definition update_status :: "string \<Rightarrow> rat option \<Rightarrow> gui \<Rightarrow> gui" where
  "update_status txt file_size_kb s =
     s\<lparr>status_text :=
         (case file_size_kb of
            None \<Rightarrow> txt
          | Some kb \<Rightarrow> txt @ '' ['' @ format_f1 kb @ '' KB]'')\<rparr>"

subsection \<open>The select-folder handler\<close>

text \<open>
  The registered select-folder callback is the one handler whose own effect on the view
  is followed here (it may call back into the view before it returns), so
  \<open>u_on_select_folder\<close> takes that effect as the function \<open>body\<close>; \<open>id\<close> is a
  callback that leaves the view alone.  The \<^verbatim>\<open>finally\<close> clause runs on the normal
  return modelled here.
\<close>

definition u_on_select_folder :: "(gui \<Rightarrow> gui) \<Rightarrow> gui \<Rightarrow> gui" where
  "u_on_select_folder body s =
     (if modal_open s then s
      else
        let s1 = set_select_folder_button_enabled False s;
            s2 = (case callbacks s1 ''select_folder'' of
                    Some h \<Rightarrow> body (invoke h NoArgs s1)
                  | None \<Rightarrow> s1)
        in set_select_folder_button_enabled True s2)"

definition click_select_folder :: "(gui \<Rightarrow> gui) \<Rightarrow> gui \<Rightarrow> gui" where
  \<comment> \<open>toolkit: a click runs the button's callback only while the button is enabled\<close>
  "click_select_folder body s =
     (case buttons s ''select_folder_button'' of
        None \<Rightarrow> s
      | Some b \<Rightarrow> if b_enabled b then u_on_select_folder body s else s)"

subsection \<open>The image area\<close>

definition show_image :: "pil_image option \<Rightarrow> gui \<Rightarrow> py_error + gui" where
  \<comment> \<open>\<open>im_rgba\<close> stands for the bytes of \<^verbatim>\<open>photo.convert("RGBA")\<close>; the texture receives
      them divided by 255 as 32-bit floats, unscaled.  \<^verbatim>\<open>set_item_label\<close> on a missing
      item is the toolkit's error.\<close>
  "show_image photo s =
     (case photo of
        None \<Rightarrow>
          Inr (case image_display s of
                 Some w \<Rightarrow>
                   s\<lparr>image_display := Some (w\<lparr>iw_texture := ''placeholder_texture'',
                        iw_width := IMAGE_DISPLAY_WIDTH, iw_height := IMAGE_DISPLAY_HEIGHT\<rparr>)\<rparr>
               | None \<Rightarrow> s)
      | Some ph \<Rightarrow>
          (case image_display s of
             Some w \<Rightarrow>
               Inr (s\<lparr>image_texture := Pixels (im_rgba ph),
                      image_display := Some (w\<lparr>iw_texture := ''image_texture'',
                        iw_width := IMAGE_DISPLAY_WIDTH, iw_height := IMAGE_DISPLAY_HEIGHT,
                        iw_label := str_nat IMAGE_DISPLAY_WIDTH @ ''x'' @ str_nat IMAGE_DISPLAY_HEIGHT\<rparr>)\<rparr>)
           | None \<Rightarrow> Inl ItemNotFound))"

subsection \<open>Category buttons\<close>

definition empty_category :: category where
  \<comment> \<open>\<^verbatim>\<open>{"name": "", "path": ""}\<close>\<close>
  "empty_category = [''name'' \<mapsto> [], ''path'' \<mapsto> []]"

definition category_button_item :: "int \<Rightarrow> category \<Rightarrow> nat \<Rightarrow> cat_button" where
  \<comment> \<open>the options \<^verbatim>\<open>_create_category_button\<close> gives the new button: the defined theme only
      when name and path are both non-empty, a tooltip when the path is non-empty, and a
      right-click handler that carries the index\<close>
  "category_button_item idx cat parent =
     (let name = dict_get cat ''name'' [];
          path = dict_get cat ''path'' [];
          button_text = (if py_truthy name then str_int (idx + 1) @ '': '' @ name
                         else str_int (idx + 1) @ '': [Empty]'');
          theme = (if py_truthy name \<and> py_truthy path then ''category_defined''
                   else ''category'')
      in \<lparr>cb_label = button_text, cb_theme = theme, cb_user_data = idx,
          cb_parent = parent,
          cb_tooltip = (if py_truthy path then Some path else None),
          cb_right_data = Some idx\<rparr>)"

definition u_create_category_button :: "int \<Rightarrow> category \<Rightarrow> nat \<Rightarrow> gui \<Rightarrow> gui" where
  \<comment> \<open>the button is stored under a fresh identifier, which is recorded for the slot\<close>
  "u_create_category_button idx cat parent s =
     (let btn_id = uuid_next s
      in s\<lparr>uuid_next := Suc btn_id,
           cat_items := (cat_items s)(btn_id \<mapsto> category_button_item idx cat parent),
           category_button_ids := (category_button_ids s)(idx \<mapsto> btn_id)\<rparr>)"

definition category_at :: "category list \<Rightarrow> nat \<Rightarrow> category" where
  \<comment> \<open>\<^verbatim>\<open>categories[idx] if idx < len(categories) else {"name": "", "path": ""}\<close>\<close>
  "category_at categories idx =
     (if idx < length categories then categories ! idx else empty_category)"

definition set_categories_row :: "category list \<Rightarrow> nat \<Rightarrow> gui \<Rightarrow> gui" where
  \<comment> \<open>one round of \<^verbatim>\<open>for row in range(3)\<close>: a new horizontal group, then three buttons\<close>
  "set_categories_row categories row s =
     (let group_id = uuid_next s;
          s1 = s\<lparr>uuid_next := Suc group_id, cat_groups := cat_groups s @ [group_id]\<rparr>
      in fold (\<lambda>col. u_create_category_button (int (row * 3 + col))
                        (category_at categories (row * 3 + col)) group_id)
           [0, 1, 2] s1)"

definition set_categories :: "category list \<Rightarrow> gui \<Rightarrow> gui" where
  \<comment> \<open>the container exists from \<^verbatim>\<open>__init__\<close> on; deleting its children removes every
      group and button of the grid\<close>
  "set_categories categories s =
     fold (set_categories_row categories) [0, 1, 2]
       (s\<lparr>cat_groups := [], cat_items := Map.empty, category_callbacks := Map.empty,
          category_button_ids := Map.empty\<rparr>)"

subsection \<open>Feedback pulses and their timers\<close>

definition bind_cat_theme :: "nat \<Rightarrow> string \<Rightarrow> gui \<Rightarrow> gui" where
  \<comment> \<open>\<^verbatim>\<open>dpg.bind_item_theme\<close> on a category button; the identifiers the view keeps for
      the grid are cleared together with the buttons, so the item is there\<close>
  "bind_cat_theme button_id theme s =
     (case cat_items s button_id of
        None \<Rightarrow> s
      | Some b \<Rightarrow> s\<lparr>cat_items := (cat_items s)(button_id \<mapsto> b\<lparr>cb_theme := theme\<rparr>)\<rparr>)"

definition bind_button_theme :: "string \<Rightarrow> string \<Rightarrow> gui \<Rightarrow> gui" where
  \<comment> \<open>\<^verbatim>\<open>dpg.bind_item_theme\<close> on a named button\<close>
  "bind_button_theme tag theme s =
     (case buttons s tag of
        None \<Rightarrow> s
      | Some b \<Rightarrow> s\<lparr>buttons := (buttons s)(tag \<mapsto> b\<lparr>b_theme := theme\<rparr>)\<rparr>)"

definition cancel_timer :: "nat \<Rightarrow> gui \<Rightarrow> gui" where
  \<comment> \<open>\<^verbatim>\<open>timer.cancel()\<close>: a timer that has not fired will never fire\<close>
  "cancel_timer t s =
     (case timers s t of
        None \<Rightarrow> s
      | Some tm \<Rightarrow> s\<lparr>timers := (timers s)(t \<mapsto> tm\<lparr>tm_cancelled := True\<rparr>)\<rparr>)"

definition start_timer :: "restore \<Rightarrow> gui \<Rightarrow> nat \<times> gui" where
  \<comment> \<open>\<^verbatim>\<open>threading.Timer(duration, restore_theme)\<close> and its \<^verbatim>\<open>start()\<close>\<close>
  "start_timer r s =
     (timer_next s,
      s\<lparr>timers := (timers s)(timer_next s \<mapsto>
             \<lparr>tm_restore = r, tm_cancelled = False, tm_fired = False\<rparr>),
        timer_next := Suc (timer_next s)\<rparr>)"

definition u_show_button_feedback :: "int \<Rightarrow> gui \<Rightarrow> gui" where
  "u_show_button_feedback idx s =
     (case category_button_ids s idx of
        None \<Rightarrow> s
      | Some button_id \<Rightarrow>
          let s1 = (case feedback_timers s (CatKey idx) of
                      None \<Rightarrow> s
                    | Some v \<Rightarrow>
                        (case v of TimerObj t \<Rightarrow> cancel_timer t s | _ \<Rightarrow> s)
                          \<lparr>feedback_timers := (feedback_timers s)(CatKey idx \<mapsto> NoTimer)\<rparr>);
              s2 = bind_cat_theme button_id ''category_feedback'' s1;
              (t, s3) = start_timer (RestoreCategory button_id idx) s2
          in s3\<lparr>feedback_timers := (feedback_timers s3)(CatKey idx \<mapsto> TimerObj t)\<rparr>)"

definition restore_category_theme :: "nat \<Rightarrow> int \<Rightarrow> gui \<Rightarrow> gui" where
  \<comment> \<open>the closure \<^verbatim>\<open>restore_theme\<close> of \<^verbatim>\<open>_show_button_feedback\<close>\<close>
  "restore_category_theme button_id idx s =
     (let s1 = (case cat_items s button_id of
                  None \<Rightarrow> s
                | Some b \<Rightarrow>
                    let is_empty = (if py_truthy (cb_label b)
                                    then py_in ''[Empty]'' (cb_label b) else True);
                        theme = (if is_empty then ''category'' else ''category_defined'')
                    in bind_cat_theme button_id theme s)
      in if CatKey idx \<in> dom (feedback_timers s1)
         then s1\<lparr>feedback_timers := (feedback_timers s1)(CatKey idx := None)\<rparr>
         else s1)"

definition u_show_nav_button_feedback :: "string \<Rightarrow> gui \<Rightarrow> gui" where
  "u_show_nav_button_feedback which s =
     (case nav_button_ids s which of
        None \<Rightarrow> s
      | Some button_id \<Rightarrow>
          let s1 = (if NavKey which \<in> dom (feedback_timers s)
                    then s\<lparr>feedback_timers := (feedback_timers s)(NavKey which \<mapsto> NoTimer)\<rparr>
                    else s);
              s2 = (if which = ''prev'' then bind_button_theme button_id ''prev_feedback'' s1
                    else if which = ''next'' then bind_button_theme button_id ''next_feedback'' s1
                    else s1);
              s3 = s2\<lparr>feedback_timers := (feedback_timers s2)(NavKey which \<mapsto> FlagTrue)\<rparr>
          in snd (start_timer (RestoreNav which button_id) s3))"

definition restore_nav_theme :: "string \<Rightarrow> string \<Rightarrow> gui \<Rightarrow> gui" where
  \<comment> \<open>the closure \<^verbatim>\<open>restore_theme\<close> of \<^verbatim>\<open>_show_nav_button_feedback\<close>;
      \<^verbatim>\<open>.get(nav_key) is not None\<close> fails for a missing key and for the value \<^verbatim>\<open>None\<close>\<close>
  "restore_nav_theme which button_id s =
     (case feedback_timers s (NavKey which) of
        None \<Rightarrow> s
      | Some NoTimer \<Rightarrow> s
      | Some _ \<Rightarrow>
          (if which = ''prev'' then bind_button_theme button_id ''prev'' s
           else if which = ''next'' then bind_button_theme button_id ''next'' s
           else s)\<lparr>feedback_timers := (feedback_timers s)(NavKey which := None)\<rparr>)"

definition timer_pending :: "gui \<Rightarrow> nat \<Rightarrow> bool" where
  \<comment> \<open>started, not cancelled, not yet fired\<close>
  "timer_pending s t =
     (case timers s t of None \<Rightarrow> False | Some tm \<Rightarrow> \<not> tm_cancelled tm \<and> \<not> tm_fired tm)"

definition fire_timer :: "nat \<Rightarrow> gui \<Rightarrow> gui" where
  \<comment> \<open>the delay of a pending timer has passed: its function runs, once\<close>
  "fire_timer t s =
     (case timers s t of
        None \<Rightarrow> s
      | Some tm \<Rightarrow>
          if tm_cancelled tm \<or> tm_fired tm then s
          else
            let s1 = s\<lparr>timers := (timers s)(t \<mapsto> tm\<lparr>tm_fired := True\<rparr>)\<rparr>
            in (case tm_restore tm of
                  RestoreCategory button_id idx \<Rightarrow> restore_category_theme button_id idx s1
                | RestoreNav which button_id \<Rightarrow> restore_nav_theme which button_id s1))"

subsection \<open>Clicks and keys\<close>

definition u_on_category_click :: "int \<Rightarrow> gui \<Rightarrow> gui" where
  "u_on_category_click idx s =
     (let s1 = u_show_button_feedback idx s
      in case category_callbacks s1 idx of
           Some cbs \<Rightarrow> invoke (fst cbs) (IdxArg idx) s1
         | None \<Rightarrow> s1)"

definition u_on_category_right_click :: "int \<Rightarrow> gui \<Rightarrow> gui" where
  "u_on_category_right_click idx s =
     (case category_callbacks s idx of
        Some cbs \<Rightarrow> invoke (snd cbs) (IdxArg idx) s
      | None \<Rightarrow> s)"

definition u_handle_keyboard_category :: "int \<Rightarrow> gui \<Rightarrow> gui" where
  "u_handle_keyboard_category idx s =
     (if modal_open s then s
      else u_on_category_click idx (u_show_button_feedback idx s))"

definition u_on_next :: "gui \<Rightarrow> gui" where
  "u_on_next s = (case callbacks s ''next'' of Some h \<Rightarrow> invoke h NoArgs s | None \<Rightarrow> s)"

definition u_on_prev :: "gui \<Rightarrow> gui" where
  "u_on_prev s = (case callbacks s ''prev'' of Some h \<Rightarrow> invoke h NoArgs s | None \<Rightarrow> s)"

definition u_handle_keyboard_prev :: "gui \<Rightarrow> gui" where
  "u_handle_keyboard_prev s = u_on_prev (u_show_nav_button_feedback ''prev'' s)"

definition u_handle_keyboard_next :: "gui \<Rightarrow> gui" where
  "u_handle_keyboard_next s = u_on_next (u_show_nav_button_feedback ''next'' s)"

text \<open>
  What the toolkit does with an input event.  A left click on the grid's button for
  slot \<open>idx\<close> runs the button's callback with the button's user data; a right click runs
  the handler of the button's item-handler registry; the key \<^verbatim>\<open>mvKey_1 + i\<close> runs the
  key handler registered for it by \<^verbatim>\<open>bind_keyboard_shortcuts\<close>.
\<close>

definition click_category :: "int \<Rightarrow> gui \<Rightarrow> gui" where
  "click_category idx s =
     (case category_button_ids s idx of
        None \<Rightarrow> s
      | Some b \<Rightarrow>
          (case cat_items s b of
             None \<Rightarrow> s
           | Some it \<Rightarrow> u_on_category_click (cb_user_data it) s))"

definition right_click_category :: "int \<Rightarrow> gui \<Rightarrow> gui" where
  "right_click_category idx s =
     (case category_button_ids s idx of
        None \<Rightarrow> s
      | Some b \<Rightarrow>
          (case cat_items s b of
             None \<Rightarrow> s
           | Some it \<Rightarrow>
               (case cb_right_data it of
                  None \<Rightarrow> s
                | Some u \<Rightarrow> u_on_category_right_click u s)))"

definition press_digit :: "nat \<Rightarrow> gui \<Rightarrow> gui" where
  "press_digit i s =
     (if keyboard_handlers_registered s \<and> i < 9
      then u_handle_keyboard_category (int i) s else s)"

section \<open>The dialogs (dialogs.py)\<close>

text \<open>
  A dialog is a window item of the context.  The closures a dialog's buttons run capture
  the view that \<^verbatim>\<open>_get_view_instance()\<close> returned when the dialog was built (\<open>f_view\<close>, and
  the flag of \<open>About\<close>: whether there was one), the slot index and the callback; the two
  input fields and the enabled state of the Save button are the form's remaining state.
\<close>

definition u_center_window :: "wtag \<Rightarrow> int \<Rightarrow> int \<Rightarrow> gui \<Rightarrow> gui" where
  "u_center_window window_id width height s =
     (case windows s window_id of
        None \<Rightarrow> s
      | Some win \<Rightarrow>
          s\<lparr>windows := (windows s)(window_id \<mapsto>
               win\<lparr>w_pos := Some (max ((fst (viewport s) - width) div 2) 0,
                                  max ((snd (viewport s) - height) div 2) 0)\<rparr>)\<rparr>)"

definition delete_item :: "wtag \<Rightarrow> gui \<Rightarrow> gui" where
  "delete_item window_id s = s\<lparr>windows := (windows s)(window_id := None)\<rparr>"

definition u_show_message_dialog :: "string \<Rightarrow> string \<Rightarrow> gui \<Rightarrow> gui" where
  "u_show_message_dialog title message s =
     (let window_id = MsgWin (uuid_next s);
          s1 = s\<lparr>uuid_next := Suc (uuid_next s),
                 windows := (windows s)(window_id \<mapsto>
                   \<lparr>w_label = title, w_modal = True, w_shown = True, w_pos = None,
                    w_content = Message message\<rparr>)\<rparr>
      in u_center_window window_id 300 100 s1)"

definition show_info :: "string \<Rightarrow> gui \<Rightarrow> gui" where
  "show_info message s = u_show_message_dialog ''Info'' message s"

definition show_warning :: "string \<Rightarrow> gui \<Rightarrow> gui" where
  "show_warning message s = u_show_message_dialog ''Warning'' message s"

definition show_error :: "string \<Rightarrow> gui \<Rightarrow> gui" where
  "show_error message s = u_show_message_dialog ''Error'' message s"

definition u_get_view_instance :: "gui \<Rightarrow> bool" where
  \<comment> \<open>whether \<^verbatim>\<open>DearPyGuiView._instance\<close> is a view\<close>
  "u_get_view_instance s = view_instance s"

definition u_set_modal_state :: "bool \<Rightarrow> bool \<Rightarrow> gui \<Rightarrow> gui" where
  "u_set_modal_state view is_open s = (if view then set_modal_open is_open s else s)"

definition form_of :: "gui \<Rightarrow> wtag \<Rightarrow> cat_form option" where
  "form_of s window_id =
     (case windows s window_id of
        None \<Rightarrow> None
      | Some win \<Rightarrow> (case w_content win of CategoryForm f \<Rightarrow> Some f | _ \<Rightarrow> None))"

definition set_form :: "wtag \<Rightarrow> cat_form \<Rightarrow> gui \<Rightarrow> gui" where
  "set_form window_id f s =
     (case windows s window_id of
        None \<Rightarrow> s
      | Some win \<Rightarrow>
          s\<lparr>windows := (windows s)(window_id \<mapsto> win\<lparr>w_content := CategoryForm f\<rparr>)\<rparr>)"

definition u_update_ok_state :: "wtag \<Rightarrow> gui \<Rightarrow> gui" where
  "u_update_ok_state window_id s =
     (case form_of s window_id of
        None \<Rightarrow> s
      | Some f \<Rightarrow>
          set_form window_id
            (f\<lparr>f_ok_enabled := (py_truthy (py_strip (f_name f))
                                  \<and> py_truthy (py_strip (f_folder f)))\<rparr>) s)"

definition u_on_ok :: "wtag \<Rightarrow> gui \<Rightarrow> gui" where
  "u_on_ok window_id s =
     (case form_of s window_id of
        None \<Rightarrow> s
      | Some f \<Rightarrow>
          delete_item window_id
            (u_set_modal_state (f_view f) False
               (invoke (f_callback f)
                  (OutcomeArg \<lparr>action = ''save'', o_idx = f_idx f,
                     o_name = Some (f_name f), o_path = Some (f_folder f)\<rparr>) s)))"

definition u_on_cancel :: "wtag \<Rightarrow> gui \<Rightarrow> gui" where
  "u_on_cancel window_id s =
     (case form_of s window_id of
        None \<Rightarrow> s
      | Some f \<Rightarrow>
          delete_item window_id
            (u_set_modal_state (f_view f) False
               (invoke (f_callback f)
                  (OutcomeArg \<lparr>action = ''cancel'', o_idx = f_idx f,
                     o_name = None, o_path = None\<rparr>) s)))"

definition u_on_delete :: "wtag \<Rightarrow> gui \<Rightarrow> gui" where
  "u_on_delete window_id s =
     (case form_of s window_id of
        None \<Rightarrow> s
      | Some f \<Rightarrow>
          delete_item window_id
            (u_set_modal_state (f_view f) False
               (invoke (f_callback f)
                  (OutcomeArg \<lparr>action = ''delete'', o_idx = f_idx f,
                     o_name = None, o_path = None\<rparr>) s)))"

definition u_on_browse :: "wtag \<Rightarrow> string \<Rightarrow> gui \<Rightarrow> gui" where
  \<comment> \<open>\<open>folder_selected\<close> is what the native folder chooser returned (empty when the
      user cancelled it)\<close>
  "u_on_browse window_id folder_selected s =
     (if py_truthy folder_selected
      then (case form_of s window_id of
              None \<Rightarrow> s
            | Some f \<Rightarrow>
                u_update_ok_state window_id
                  (set_form window_id (f\<lparr>f_folder := folder_selected\<rparr>) s))
      else s)"

definition configure_category :: "int \<Rightarrow> category \<Rightarrow> handler \<Rightarrow> gui \<Rightarrow> gui" where
  "configure_category idx initial callback s =
     (let view = u_get_view_instance s;
          window_id = CfgWin idx (uuid4_next s);
          s1 = s\<lparr>uuid4_next := Suc (uuid4_next s),
                 windows := (windows s)(window_id \<mapsto>
                   \<lparr>w_label = ''Edit Category '' @ str_int (idx + 1), w_modal = True,
                    w_shown = True, w_pos = None,
                    w_content = CategoryForm
                      \<lparr>f_view = view, f_idx = idx, f_callback = callback,
                       f_name = dict_get initial ''name'' [],
                       f_folder = dict_get initial ''path'' [],
                       f_ok_enabled = True\<rparr>\<rparr>)\<rparr>;
          s2 = u_center_window window_id 315 200 s1;
          s3 = u_update_ok_state window_id s2
      in u_set_modal_state view True s3)"

definition show_how_to :: "gui \<Rightarrow> gui" where
  "show_how_to s =
     (let window_id = HowToWin (uuid4_next s);
          s1 = s\<lparr>uuid4_next := Suc (uuid4_next s),
                 windows := (windows s)(window_id \<mapsto>
                   \<lparr>w_label = ''How to'', w_modal = True, w_shown = True, w_pos = None,
                    w_content = HowTo\<rparr>)\<rparr>
      in u_center_window window_id 880 270 s1)"

definition show_about :: "gui \<Rightarrow> gui" where
  "show_about s =
     (let view = u_get_view_instance s;
          s1 = (if AboutWin \<in> dom (windows s) then s
                else s\<lparr>windows := (windows s)(AboutWin \<mapsto>
                        \<lparr>w_label = ''About'', w_modal = True, w_shown = False, w_pos = None,
                         w_content = About view\<rparr>)\<rparr>);
          s2 = u_set_modal_state view True s1;
          s3 = u_center_window AboutWin 355 180 s2
      in case windows s3 AboutWin of
           None \<Rightarrow> s3
         | Some win \<Rightarrow> s3\<lparr>windows := (windows s3)(AboutWin \<mapsto> win\<lparr>w_shown := True\<rparr>)\<rparr>)"

definition close_popup :: "bool \<Rightarrow> gui \<Rightarrow> gui" where
  \<comment> \<open>the Close button of the About window\<close>
  "close_popup view s =
     (let s1 = u_set_modal_state view False s
      in case windows s1 AboutWin of
           None \<Rightarrow> s1
         | Some win \<Rightarrow> s1\<lparr>windows := (windows s1)(AboutWin \<mapsto> win\<lparr>w_shown := False\<rparr>)\<rparr>)"

subsection \<open>User actions on a dialog\<close>

text \<open>
  What the toolkit does with the user's actions on a dialog: an edit of an input field
  stores the new text and runs the field's callback; a click runs the callback of the
  button, unless the button is disabled; nothing happens on a window that is gone or
  hidden.  The actions are those the dialogs' own widgets offer; closing a window by a
  title-bar button is not among them.
\<close>

datatype dlg_event =
  EditName string | EditFolder string | Browse string | ClickSave | ClickCancel | ClickDelete

definition form_event :: "wtag \<Rightarrow> dlg_event \<Rightarrow> gui \<Rightarrow> gui" where
  "form_event window_id e s =
     (case form_of s window_id of
        None \<Rightarrow> s
      | Some f \<Rightarrow>
          (case e of
             EditName v \<Rightarrow> u_update_ok_state window_id (set_form window_id (f\<lparr>f_name := v\<rparr>) s)
           | EditFolder v \<Rightarrow>
               u_update_ok_state window_id (set_form window_id (f\<lparr>f_folder := v\<rparr>) s)
           | Browse folder_selected \<Rightarrow> u_on_browse window_id folder_selected s
           | ClickSave \<Rightarrow> if f_ok_enabled f then u_on_ok window_id s else s
           | ClickCancel \<Rightarrow> u_on_cancel window_id s
           | ClickDelete \<Rightarrow> u_on_delete window_id s))"

definition form_events :: "wtag \<Rightarrow> dlg_event list \<Rightarrow> gui \<Rightarrow> gui" where
  "form_events window_id es s = fold (form_event window_id) es s"

definition click_dismiss :: "wtag \<Rightarrow> gui \<Rightarrow> gui" where
  \<comment> \<open>the OK button of a message dialog, the Close button of the help and About windows\<close>
  "click_dismiss window_id s =
     (case windows s window_id of
        None \<Rightarrow> s
      | Some win \<Rightarrow>
          if \<not> w_shown win then s
          else (case w_content win of
                  Message m \<Rightarrow> delete_item window_id s
                | HowTo \<Rightarrow> delete_item window_id s
                | About view \<Rightarrow> close_popup view s
                | CategoryForm f \<Rightarrow> s))"

definition open_dialogs :: "gui \<Rightarrow> wtag set" where
  \<comment> \<open>the modal windows on screen\<close>
  "open_dialogs s = {t. \<exists>win. windows s t = Some win \<and> w_shown win \<and> w_modal win}"

section \<open>Sequencing of calls that may raise\<close>

definition and_then :: "py_error + 'a \<Rightarrow> ('a \<Rightarrow> py_error + 'b) \<Rightarrow> py_error + 'b" where
  \<comment> \<open>the second call runs only when the first returned\<close>
  "and_then r f = (case r of Inl e \<Rightarrow> Inl e | Inr x \<Rightarrow> f x)"

section \<open>Observations used in the statements\<close>

definition category_button :: "gui \<Rightarrow> int \<Rightarrow> cat_button option" where
  \<comment> \<open>the grid button of a slot: the item behind \<^verbatim>\<open>self._category_button_ids[idx]\<close>\<close>
  "category_button s idx =
     (case category_button_ids s idx of None \<Rightarrow> None | Some b \<Rightarrow> cat_items s b)"

definition is_defined :: "category list \<Rightarrow> nat \<Rightarrow> bool" where
  \<comment> \<open>entry \<open>i\<close> exists and has a non-empty name and a non-empty path\<close>
  "is_defined categories i =
     (i < length categories \<and> cat_truthy (categories ! i) ''name''
        \<and> cat_truthy (categories ! i) ''path'')"

definition bind_all :: "(int \<times> handler \<times> handler) list \<Rightarrow> gui \<Rightarrow> gui" where
  \<comment> \<open>a run of \<^verbatim>\<open>bind_category\<close> calls\<close>
  "bind_all bs s = fold (\<lambda>b. bind_category (fst b) (fst (snd b)) (snd (snd b))) bs s"

definition form_current :: "cat_form \<Rightarrow> bool" where
  \<comment> \<open>the Save button is enabled exactly when both stripped fields are non-empty\<close>
  "form_current f =
     (f_ok_enabled f = (py_strip (f_name f) \<noteq> [] \<and> py_strip (f_folder f) \<noteq> []))"

definition dialog_open :: "gui \<Rightarrow> wtag \<Rightarrow> int \<Rightarrow> handler \<Rightarrow> invocation list \<Rightarrow> bool" where
  \<comment> \<open>the configuration dialog of slot \<open>idx\<close> with callback \<open>cb\<close> is on screen, the modal
      flag is set, and the trace is still \<open>tr\<close>: the callback has not been invoked\<close>
  "dialog_open s window_id idx cb tr =
     (\<exists>f. form_of s window_id = Some f \<and> f_view f \<and> f_idx f = idx \<and> f_callback f = cb
          \<and> form_current f \<and> modal_open s \<and> calls s = tr)"

definition terminal_outcome :: "int \<Rightarrow> outcome \<Rightarrow> bool" where
  \<comment> \<open>a save with both fields, neither blank, or a cancel or a delete without fields\<close>
  "terminal_outcome idx oc =
     (o_idx oc = idx \<and>
      (action oc = ''save'' \<and>
         (\<exists>n p. o_name oc = Some n \<and> o_path oc = Some p \<and> py_strip n \<noteq> [] \<and> py_strip p \<noteq> [])
       \<or> action oc = ''cancel'' \<and> o_name oc = None \<and> o_path oc = None
       \<or> action oc = ''delete'' \<and> o_name oc = None \<and> o_path oc = None))"

definition dialog_closed :: "gui \<Rightarrow> wtag \<Rightarrow> int \<Rightarrow> handler \<Rightarrow> invocation list \<Rightarrow> bool" where
  \<comment> \<open>the dialog is gone, the modal flag is false, and the trace has grown by exactly one
      call of \<open>cb\<close>, with a terminal outcome\<close>
  "dialog_closed s window_id idx cb tr =
     (windows s window_id = None \<and> \<not> modal_open s
      \<and> (\<exists>oc. calls s = tr @ [(cb, OutcomeArg oc)] \<and> terminal_outcome idx oc))"

section \<open>Frame lemmas of the Dear PyGui view\<close>

text \<open>
  What each operation leaves alone, and the closed form of the grid that
  \<^verbatim>\<open>set_categories\<close> builds.  These are shared by the theorems below.
\<close>

lemma feedback_frame:
  "calls (u_show_button_feedback idx s) = calls s"
  "category_callbacks (u_show_button_feedback idx s) = category_callbacks s"
  "modal_open (u_show_button_feedback idx s) = modal_open s"
  by (simp_all add: u_show_button_feedback_def bind_cat_theme_def start_timer_def
      cancel_timer_def Let_def split: option.splits fb_val.splits)

lemma on_category_click_calls:
  assumes "category_callbacks s idx = Some (f, g)"
  shows "calls (u_on_category_click idx s) = calls s @ [(f, IdxArg idx)]"
  using assms by (simp add: u_on_category_click_def Let_def feedback_frame invoke_def)

lemma on_category_right_click_calls:
  assumes "category_callbacks s idx = Some (f, g)"
  shows "calls (u_on_category_right_click idx s) = calls s @ [(g, IdxArg idx)]"
  using assms by (simp add: u_on_category_right_click_def invoke_def)

lemma handle_keyboard_category_calls:
  assumes "category_callbacks s idx = Some (f, g)" and "\<not> modal_open s"
  shows "calls (u_handle_keyboard_category idx s) = calls s @ [(f, IdxArg idx)]"
  using assms
  by (simp add: u_handle_keyboard_category_def on_category_click_calls [where g = g]
      feedback_frame)

lemma create_button_lookup:
  "category_button_ids (u_create_category_button idx cat parent s) j =
     (if j = idx then Some (uuid_next s) else category_button_ids s j)"
  "cat_items (u_create_category_button idx cat parent s) b =
     (if b = uuid_next s then Some (category_button_item idx cat parent) else cat_items s b)"
  "uuid_next (u_create_category_button idx cat parent s) = Suc (uuid_next s)"
  by (simp_all add: u_create_category_button_def Let_def)

lemma row_lookup:
  "uuid_next (set_categories_row cats row s) = uuid_next s + 4"
  "category_button_ids (set_categories_row cats row s) j =
     (if j = int (row * 3) + 2 then Some (uuid_next s + 3)
      else if j = int (row * 3) + 1 then Some (uuid_next s + 2)
      else if j = int (row * 3) then Some (uuid_next s + 1)
      else category_button_ids s j)"
  "cat_items (set_categories_row cats row s) b =
     (if b = uuid_next s + 3
      then Some (category_button_item (int (row * 3) + 2) (category_at cats (row * 3 + 2)) (uuid_next s))
      else if b = uuid_next s + 2
      then Some (category_button_item (int (row * 3) + 1) (category_at cats (row * 3 + 1)) (uuid_next s))
      else if b = uuid_next s + 1
      then Some (category_button_item (int (row * 3)) (category_at cats (row * 3)) (uuid_next s))
      else cat_items s b)"
  by (simp_all add: set_categories_row_def Let_def create_button_lookup)

lemma set_categories_button:
  "category_button (set_categories cats s) idx =
     (if 0 \<le> idx \<and> idx \<le> 8
      then Some (category_button_item idx (category_at cats (nat idx))
                   (uuid_next s + 4 * (nat idx div 3)))
      else None)"
proof (cases "0 \<le> idx \<and> idx \<le> 8")
  case True
  then have "idx \<in> {0, 1, 2, 3, 4, 5, 6, 7, 8}" by auto
  then show ?thesis
    by (auto simp add: category_button_def set_categories_def row_lookup)
      (simp_all add: numeral_2_eq_2 add.commute)
next
  case False
  then show ?thesis
    by (auto simp add: category_button_def set_categories_def row_lookup)
qed

lemma bind_category_frame:
  "category_button (bind_category j a b s) idx = category_button s idx"
  "calls (bind_category j a b s) = calls s"
  "modal_open (bind_category j a b s) = modal_open s"
  "keyboard_handlers_registered (bind_category j a b s) = keyboard_handlers_registered s"
  "category_callbacks (bind_category j a b s) idx =
     (if idx = j then Some (a, b) else category_callbacks s idx)"
  by (simp_all add: bind_category_def category_button_def split: option.splits)

lemma bind_all_frame:
  "category_button (bind_all bs s) idx = category_button s idx"
  "calls (bind_all bs s) = calls s"
  "modal_open (bind_all bs s) = modal_open s"
  "keyboard_handlers_registered (bind_all bs s) = keyboard_handlers_registered s"
  by (induction bs arbitrary: s) (simp_all add: bind_all_def bind_category_frame)

lemma bind_all_other:
  assumes "idx \<notin> fst ` set bs"
  shows "category_callbacks (bind_all bs s) idx = category_callbacks s idx"
  using assms by (induction bs arbitrary: s) (auto simp add: bind_all_def bind_category_frame)

lemma shortcuts_frame:
  "category_button (bind_keyboard_shortcuts s) idx = category_button s idx"
  "calls (bind_keyboard_shortcuts s) = calls s"
  "modal_open (bind_keyboard_shortcuts s) = modal_open s"
  "category_callbacks (bind_keyboard_shortcuts s) = category_callbacks s"
  "keyboard_handlers_registered (bind_keyboard_shortcuts s)"
  by (simp_all add: bind_keyboard_shortcuts_def category_button_def split: option.splits)

lemma set_categories_frame:
  "calls (set_categories cats s) = calls s"
  "modal_open (set_categories cats s) = modal_open s"
  "category_callbacks (set_categories cats s) = Map.empty"
  by (simp_all add: set_categories_def set_categories_row_def u_create_category_button_def Let_def)

lemma on_category_click_unbound:
  assumes "category_callbacks s idx = None"
  shows "calls (u_on_category_click idx s) = calls s"
  using assms by (simp add: u_on_category_click_def Let_def feedback_frame)

lemma click_category_eq:
  assumes "category_button s idx = Some it" and "cb_user_data it = idx"
  shows "click_category idx s = u_on_category_click idx s"
  using assms by (auto simp add: click_category_def category_button_def split: option.splits)

lemma right_click_category_eq:
  assumes "category_button s idx = Some it" and "cb_right_data it = Some idx"
  shows "right_click_category idx s = u_on_category_right_click idx s"
  using assms by (auto simp add: right_click_category_def category_button_def split: option.splits)

section \<open>C1: what a click and a number key invoke\<close>

lemma mw_set_categories_buttons:
  assumes "mw_set_categories cats w = Inr w1"
  shows "mw_cat_buttons w1 = map (mw_new_button cats (mw_current_columns w)) [0..<9]"
    and "mw_calls w1 = mw_calls w"
    and "length (mw_cat_buttons w1) = 9"
  using assms
  by (auto simp add: mw_set_categories_def mw_rebuild_category_grid_def split: if_splits)

lemma mw_bind_category_ok:
  assumes "length (mw_cat_buttons w) = 9" and "i < 9"
  shows "mw_bind_category (int i) f g w =
     Inr (w\<lparr>mw_cat_buttons :=
              (mw_cat_buttons w)[i := (mw_cat_buttons w ! i)
                 \<lparr>btn_button1 := Some (f, int i), btn_button3 := Some (g, int i)\<rparr>],
            mw_click_callback := Some f, mw_right_callback := Some g\<rparr>)"
  using assms by (simp add: mw_bind_category_def py_index_def)

lemma tk_dispatch:
  assumes "i < 9" and "j < 9" and "i \<noteq> j"
    and "mw_set_categories cats w0 = Inr w1"
    and "mw_bind_category (int i) f g w1 = Inr w2"
    and "mw_bind_category (int j) f' g' w2 = Inr w3"
  shows "mw_calls (mw_left_click i w3) = mw_calls w3 @ [(f, IdxArg (int i))]"
    and "mw_calls (mw_right_click i w3) = mw_calls w3 @ [(g, IdxArg (int i))]"
    and "mw_calls (mw_press_digit i (mw_bind_keyboard_shortcuts w3)) = mw_calls w3 @ [(f', IdxArg (int i))]"
proof -
  have l1: "length (mw_cat_buttons w1) = 9"
    using assms(4) by (rule mw_set_categories_buttons(3))
  have w2: "w2 = w1\<lparr>mw_cat_buttons :=
              (mw_cat_buttons w1)[i := (mw_cat_buttons w1 ! i)
                 \<lparr>btn_button1 := Some (f, int i), btn_button3 := Some (g, int i)\<rparr>],
            mw_click_callback := Some f, mw_right_callback := Some g\<rparr>"
    using assms(5) mw_bind_category_ok [OF l1 assms(1), of f g] by simp
  then have l2: "length (mw_cat_buttons w2) = 9"
    using l1 by simp
  have w3: "w3 = w2\<lparr>mw_cat_buttons :=
              (mw_cat_buttons w2)[j := (mw_cat_buttons w2 ! j)
                 \<lparr>btn_button1 := Some (f', int j), btn_button3 := Some (g', int j)\<rparr>],
            mw_click_callback := Some f', mw_right_callback := Some g'\<rparr>"
    using assms(6) mw_bind_category_ok [OF l2 assms(2), of f' g'] by simp
  show "mw_calls (mw_left_click i w3) = mw_calls w3 @ [(f, IdxArg (int i))]"
    using assms(1,2,3) l1 by (simp add: w3 w2 mw_left_click_def mw_handle_click_def)
  show "mw_calls (mw_right_click i w3) = mw_calls w3 @ [(g, IdxArg (int i))]"
    using assms(1,2,3) l1 by (simp add: w3 w2 mw_right_click_def mw_handle_click_def)
  show "mw_calls (mw_press_digit i (mw_bind_keyboard_shortcuts w3)) = mw_calls w3 @ [(f', IdxArg (int i))]"
    using assms(1) by (simp add: w3 mw_press_digit_def mw_bind_keyboard_shortcuts_def)
qed

lemma dpg_dispatch:
  assumes "0 \<le> idx" and "idx \<le> 8" and "idx \<notin> fst ` set bs"
  shows "calls (click_category idx (bind_keyboard_shortcuts (bind_all bs (bind_category idx f g (set_categories cats s0)))))
       = calls s0 @ [(f, IdxArg idx)]"
    and "calls (right_click_category idx (bind_keyboard_shortcuts (bind_all bs (bind_category idx f g (set_categories cats s0)))))
       = calls s0 @ [(g, IdxArg idx)]"
    and "\<not> modal_open s0 \<Longrightarrow> calls (press_digit (nat idx) (bind_keyboard_shortcuts (bind_all bs (bind_category idx f g (set_categories cats s0)))))
       = calls s0 @ [(f, IdxArg idx)]"
proof -
  let ?s = "bind_keyboard_shortcuts (bind_all bs (bind_category idx f g (set_categories cats s0)))"
  have cb: "category_callbacks ?s idx = Some (f, g)"
    using assms(3) by (simp add: shortcuts_frame bind_all_other bind_category_frame)
  have btn: "category_button ?s idx = Some (category_button_item idx (category_at cats (nat idx))
                   (uuid_next s0 + 4 * (nat idx div 3)))"
    using assms(1,2)
    by (simp add: shortcuts_frame bind_all_frame bind_category_frame set_categories_button)
  have ud: "cb_user_data (category_button_item idx c p) = idx"
     "cb_right_data (category_button_item idx c p) = Some idx" for c p
    by (simp_all add: category_button_item_def Let_def)
  have c0: "calls ?s = calls s0"
    by (simp add: shortcuts_frame bind_all_frame bind_category_frame set_categories_frame)
  show "calls (click_category idx ?s) = calls s0 @ [(f, IdxArg idx)]"
    using click_category_eq [OF btn ud(1)] on_category_click_calls [OF cb] c0 by simp
  show "calls (right_click_category idx ?s) = calls s0 @ [(g, IdxArg idx)]"
    using right_click_category_eq [OF btn ud(2)] on_category_right_click_calls [OF cb] c0 by simp
  assume nm: "\<not> modal_open s0"
  have "\<not> modal_open ?s"
    using nm by (simp add: shortcuts_frame bind_all_frame bind_category_frame set_categories_frame)
  from handle_keyboard_category_calls [OF cb this] c0 assms(1,2)
  show "calls (press_digit (nat idx) ?s) = calls s0 @ [(f, IdxArg idx)]"
    by (simp add: press_digit_def shortcuts_frame)
qed

lemma rebuilt_grid_unbound:
  assumes "0 \<le> idx" and "idx \<le> 8"
  shows "calls (click_category idx (set_categories cats2 s)) = calls s"
proof -
  let ?s = "set_categories cats2 s"
  have btn: "category_button ?s idx = Some (category_button_item idx (category_at cats2 (nat idx))
                   (uuid_next s + 4 * (nat idx div 3)))"
    using assms by (simp add: set_categories_button)
  have ud: "cb_user_data (category_button_item idx c p) = idx" for c p
    by (simp add: category_button_item_def Let_def)
  have "category_callbacks ?s idx = None"
    by (simp add: set_categories_frame)
  from on_category_click_unbound [OF this] click_category_eq [OF btn ud]
  show ?thesis by (simp add: set_categories_frame)
qed

text \<open>
  C1 (as stated, refuted for the Tkinter front-end).  \<^verbatim>\<open>MainWindow.bind_category\<close> keeps
  one click callback for the keyboard, overwritten by every call.  After
  \<^verbatim>\<open>bind_category(0, 11, 12)\<close> and \<^verbatim>\<open>bind_category(1, 21, 22)\<close> the key "1" invokes
  handler 21 with index 0, not handler 11.
\<close>

theorem tk_digit_key_calls_last_bound_handler:
  "map_sum id (\<lambda>w. mw_calls (mw_press_digit 0 (mw_bind_keyboard_shortcuts w)))
     (and_then (and_then (mw_set_categories [] mw_init) (mw_bind_category 0 11 12))
        (mw_bind_category 1 21 22))
   = Inr [(21, IdxArg 0)]"
  by (simp add: and_then_def mw_set_categories_def mw_rebuild_category_grid_def mw_init_def
      mw_bind_category_def py_index_def mw_bind_keyboard_shortcuts_def mw_press_digit_def)

text \<open>
  C1 (amended).  For every index 0..8.  Dear PyGui view: after \<^verbatim>\<open>set_categories\<close>,
  \<^verbatim>\<open>bind_category(idx, f, g)\<close>, any further \<^verbatim>\<open>bind_category\<close> calls for other
  indices and \<^verbatim>\<open>bind_keyboard_shortcuts\<close>, a left click on button \<open>idx\<close> invokes
  \<open>f(idx)\<close> exactly once, a right click invokes \<open>g(idx)\<close> exactly once, and with no
  modal open the key \<open>idx + 1\<close> invokes \<open>f(idx)\<close> exactly once; a later
  \<^verbatim>\<open>set_categories\<close> discards the bindings, and a click then invokes nothing.  Tkinter
  window: after
  \<^verbatim>\<open>set_categories\<close>, \<^verbatim>\<open>bind_category(idx, f, g)\<close> and a later
  \<^verbatim>\<open>bind_category(j, f', g')\<close> for another slot, a left click on button \<open>idx\<close> invokes
  \<open>f(idx)\<close> and a right click \<open>g(idx)\<close>, each exactly once, while the key \<open>idx + 1\<close>
  invokes the click handler bound last, \<open>f'(idx)\<close>, exactly once.
\<close>

theorem bind_category_dispatch:
  assumes "0 \<le> idx" and "idx \<le> 8" and "idx \<notin> fst ` set bs" and "\<not> modal_open s0"
    and "j < 9" and "nat idx \<noteq> j"
    and "mw_set_categories cats' w0 = Inr w1"
    and "mw_bind_category idx f g w1 = Inr w2"
    and "mw_bind_category (int j) f' g' w2 = Inr w3"
  shows "calls (click_category idx (bind_keyboard_shortcuts (bind_all bs
            (bind_category idx f g (set_categories cats s0)))))
          = calls s0 @ [(f, IdxArg idx)]
       \<and> calls (right_click_category idx (bind_keyboard_shortcuts (bind_all bs
            (bind_category idx f g (set_categories cats s0)))))
          = calls s0 @ [(g, IdxArg idx)]
       \<and> calls (press_digit (nat idx) (bind_keyboard_shortcuts (bind_all bs
            (bind_category idx f g (set_categories cats s0)))))
          = calls s0 @ [(f, IdxArg idx)]
       \<and> mw_calls (mw_left_click (nat idx) w3) = mw_calls w0 @ [(f, IdxArg idx)]
       \<and> mw_calls (mw_right_click (nat idx) w3) = mw_calls w0 @ [(g, IdxArg idx)]
       \<and> mw_calls (mw_press_digit (nat idx) (mw_bind_keyboard_shortcuts w3))
          = mw_calls w0 @ [(f', IdxArg idx)]
       \<and> calls (click_category idx (set_categories cats2
            (bind_category idx f g (set_categories cats s0))))
          = calls s0"
proof -
  have i: "nat idx < 9" and ii: "int (nat idx) = idx"
    using assms(1,2) by simp_all
  have b2: "mw_bind_category (int (nat idx)) f g w1 = Inr w2"
    using assms(8) ii by simp
  have l1: "length (mw_cat_buttons w1) = 9" and c1: "mw_calls w1 = mw_calls w0"
    using assms(7) by (simp_all add: mw_set_categories_buttons)
  have c2: "mw_calls w2 = mw_calls w1"
    using b2 mw_bind_category_ok [OF l1 i, of f g] by auto
  have l2: "length (mw_cat_buttons w2) = 9"
    using b2 mw_bind_category_ok [OF l1 i, of f g] l1 by auto
  have c3: "mw_calls w3 = mw_calls w2"
    using assms(9) mw_bind_category_ok [OF l2 assms(5), of f' g'] by auto
  note tk = tk_dispatch [OF i assms(5) assms(6) assms(7) b2 assms(9)]
  note dpg = dpg_dispatch [OF assms(1) assms(2) assms(3)]
  have re: "calls (click_category idx (set_categories cats2
            (bind_category idx f g (set_categories cats s0)))) = calls s0"
    using rebuilt_grid_unbound [OF assms(1) assms(2)]
    by (simp add: bind_category_frame set_categories_frame)
  show ?thesis
    using tk dpg(1,2) dpg(3) [OF assms(4)] ii c1 c2 c3 re by simp
qed

theorem bind_category_dispatch_witness:
  "calls (click_category 3 (bind_keyboard_shortcuts (bind_all [(0, 1, 2), (5, 7, 8)]
      (bind_category 3 11 12 (set_categories [] init_view))))) = [(11, IdxArg 3)]
   \<and> calls (press_digit 3 (bind_keyboard_shortcuts (bind_all [(0, 1, 2), (5, 7, 8)]
      (bind_category 3 11 12 (set_categories [] init_view))))) = [(11, IdxArg 3)]
   \<and> map_sum id (\<lambda>w. mw_calls (mw_press_digit 3 (mw_bind_keyboard_shortcuts w)))
        (and_then (and_then (mw_set_categories [] mw_init) (mw_bind_category 3 11 12))
           (mw_bind_category 1 21 22))
      = Inr [(21, IdxArg 3)]
   \<and> map_sum id (\<lambda>w. mw_calls (mw_left_click 3 w))
        (and_then (and_then (mw_set_categories [] mw_init) (mw_bind_category 3 11 12))
           (mw_bind_category 1 21 22))
      = Inr [(11, IdxArg 3)]"
proof -
  define w1 where "w1 = projr (mw_set_categories [] mw_init)"
  define w2 where "w2 = projr (mw_bind_category 3 11 12 w1)"
  define w3 where "w3 = projr (mw_bind_category 1 21 22 w2)"
  have h1: "mw_set_categories [] mw_init = Inr w1"
    by (simp add: w1_def mw_set_categories_def mw_rebuild_category_grid_def mw_init_def)
  have l1: "length (mw_cat_buttons w1) = 9"
    using h1 by (rule mw_set_categories_buttons(3))
  have h2: "mw_bind_category 3 11 12 w1 = Inr w2"
    using mw_bind_category_ok [OF l1, of 3 11 12] by (simp add: w2_def)
  have l2: "length (mw_cat_buttons w2) = 9"
    using mw_bind_category_ok [OF l1, of 3 11 12] h2 l1 by auto
  have h3: "mw_bind_category (int 1) 21 22 w2 = Inr w3"
    using mw_bind_category_ok [OF l2, of 1 21 22] by (simp add: w3_def)
  have m: "\<not> modal_open init_view" and c: "calls init_view = []" "mw_calls mw_init = []"
    by (simp_all add: init_view_def mw_init_def)
  have "(3::int) \<notin> fst ` set [(0, 1, 2), (5, 7, 8)]"
    by simp
  from bind_category_dispatch [OF _ _ this m _ _ h1 h2 h3, of "[]"] c h1 h2 h3
  show ?thesis
    by (simp add: and_then_def)
qed

section \<open>C2: number keys while a modal dialog is open\<close>

text \<open>
  C2 (as stated, refuted for the Tkinter front-end).  \<^verbatim>\<open>MainWindow\<close> has no modal flag and
  its key bindings test only whether a click callback is stored: whatever dialog is
  open, the key "1" invokes the handler once.
\<close>

theorem tk_digit_key_not_swallowed:
  "map_sum id (\<lambda>w. mw_calls (mw_press_digit 0 (mw_bind_keyboard_shortcuts w)))
     (and_then (mw_set_categories [] mw_init) (mw_bind_category 0 11 12))
   = Inr [(11, IdxArg 0)]"
  by (simp add: and_then_def mw_set_categories_def mw_rebuild_category_grid_def mw_init_def
      mw_bind_category_def py_index_def mw_bind_keyboard_shortcuts_def mw_press_digit_def)

text \<open>
  C2 (amended).  In the Dear PyGui view, while the modal flag is true, a number key
  changes nothing: the view's state, and with it the trace of handler calls, stays as it
  was (zero invocations), for every key.  The Tkinter window has no modal flag: with the
  shortcuts bound and a click callback \<open>h\<close> stored, the key \<open>i + 1\<close> always invokes
  \<open>h(i)\<close> once.
\<close>

theorem digit_key_swallowed_while_modal:
  assumes "modal_open s"
    and "mw_keys_bound w" and "i < 9" and "mw_click_callback w = Some h"
  shows "press_digit k s = s
       \<and> calls (press_digit k s) = calls s
       \<and> u_handle_keyboard_category idx s = s
       \<and> mw_calls (mw_press_digit i w) = mw_calls w @ [(h, IdxArg (int i))]"
  using assms by (simp add: press_digit_def u_handle_keyboard_category_def mw_press_digit_def)

theorem digit_key_swallowed_while_modal_witness:
  "modal_open (configure_category 2 empty_category 5 init_view)
   \<and> press_digit 2 (configure_category 2 empty_category 5 init_view)
       = configure_category 2 empty_category 5 init_view
   \<and> mw_calls (mw_press_digit 4 (mw_init\<lparr>mw_keys_bound := True, mw_click_callback := Some 11\<rparr>))
       = [(11, IdxArg 4)]"
proof -
  have m: "modal_open (configure_category 2 empty_category 5 init_view)"
    by (simp add: configure_category_def init_view_def u_get_view_instance_def
        u_set_modal_state_def set_modal_open_def Let_def)
  have k: "mw_keys_bound (mw_init\<lparr>mw_keys_bound := True, mw_click_callback := Some 11\<rparr>)"
    and c: "mw_click_callback (mw_init\<lparr>mw_keys_bound := True, mw_click_callback := Some 11\<rparr>) = Some 11"
    and e: "mw_calls (mw_init\<lparr>mw_keys_bound := True, mw_click_callback := Some 11\<rparr>) = []"
    by (simp_all add: mw_init_def)
  have "(4::nat) < 9" by simp
  from digit_key_swallowed_while_modal [OF m k this c, of 2 0] m e
  show ?thesis by simp
qed

section \<open>C3: the outcome of the category configuration dialog\<close>

text \<open>
  The dialog as a state machine: it is either open, with the modal flag set, the Save
  button in step with the two fields and no call of the callback so far, or closed by
  one terminal action.  Every user action keeps this.
\<close>

lemma form_of_set_form:
  assumes "form_of s w = Some f0"
  shows "form_of (set_form w f s) w = Some f"
    and "modal_open (set_form w f s) = modal_open s"
    and "calls (set_form w f s) = calls s"
  using assms
  by (auto simp add: form_of_def set_form_def split: option.splits content.splits)

lemma update_ok_state_form:
  assumes "form_of s w = Some f"
  shows "form_of (u_update_ok_state w s) w =
           Some (f\<lparr>f_ok_enabled := (py_strip (f_name f) \<noteq> [] \<and> py_strip (f_folder f) \<noteq> [])\<rparr>)"
    and "modal_open (u_update_ok_state w s) = modal_open s"
    and "calls (u_update_ok_state w s) = calls s"
  using assms
  by (simp_all add: u_update_ok_state_def form_of_set_form py_truthy_def)

lemma configure_category_opens:
  assumes "view_instance s0"
  shows "dialog_open (configure_category idx initial cb s0) (CfgWin idx (uuid4_next s0)) idx cb (calls s0)"
proof -
  let ?w = "CfgWin idx (uuid4_next s0)"
  let ?f0 = "\<lparr>f_view = True, f_idx = idx, f_callback = cb,
             f_name = dict_get initial ''name'' [], f_folder = dict_get initial ''path'' [],
             f_ok_enabled = True\<rparr>"
  let ?s1 = "s0\<lparr>uuid4_next := Suc (uuid4_next s0),
                 windows := (windows s0)(?w \<mapsto>
                   \<lparr>w_label = ''Edit Category '' @ str_int (idx + 1), w_modal = True,
                    w_shown = True, w_pos = None, w_content = CategoryForm ?f0\<rparr>)\<rparr>"
  let ?s2 = "u_center_window ?w 315 200 ?s1"
  have f2: "form_of ?s2 ?w = Some ?f0"
    by (simp add: form_of_def u_center_window_def)
  have m2: "calls ?s2 = calls s0"
    by (simp add: u_center_window_def)
  have c: "configure_category idx initial cb s0 = set_modal_open True (u_update_ok_state ?w ?s2)"
    using assms
    by (simp add: configure_category_def Let_def u_get_view_instance_def u_set_modal_state_def)
  have f3: "form_of (set_modal_open True (u_update_ok_state ?w ?s2)) ?w = form_of (u_update_ok_state ?w ?s2) ?w"
    by (simp add: form_of_def set_modal_open_def)
  show ?thesis
    unfolding c dialog_open_def f3 update_ok_state_form(1) [OF f2]
    using update_ok_state_form(3) [OF f2] m2
    by (simp add: form_current_def set_modal_open_def)
qed

lemma closed_stays:
  assumes "windows s w = None"
  shows "form_event w e s = s"
  using assms by (simp add: form_event_def form_of_def)

lemma open_step:
  assumes "dialog_open s w idx cb tr"
  shows "dialog_open (form_event w e s) w idx cb tr \<or> dialog_closed (form_event w e s) w idx cb tr"
proof -
  from assms obtain f where f: "form_of s w = Some f" and v: "f_view f" and i: "f_idx f = idx"
    and c: "f_callback f = cb" and cur: "form_current f" and m: "modal_open s" and t: "calls s = tr"
    by (auto simp add: dialog_open_def)
  show ?thesis
  proof (cases e)
    case (EditName x)
    have "form_of (set_form w (f\<lparr>f_name := x\<rparr>) s) w = Some (f\<lparr>f_name := x\<rparr>)"
      using f by (rule form_of_set_form(1))
    from update_ok_state_form [OF this] form_of_set_form(2,3) [OF f]
    have "dialog_open (form_event w e s) w idx cb tr"
      using f v i c m t EditName by (simp add: dialog_open_def form_event_def form_current_def)
    then show ?thesis ..
  next
    case (EditFolder x)
    have "form_of (set_form w (f\<lparr>f_folder := x\<rparr>) s) w = Some (f\<lparr>f_folder := x\<rparr>)"
      using f by (rule form_of_set_form(1))
    from update_ok_state_form [OF this] form_of_set_form(2,3) [OF f]
    have "dialog_open (form_event w e s) w idx cb tr"
      using f v i c m t EditFolder by (simp add: dialog_open_def form_event_def form_current_def)
    then show ?thesis ..
  next
    case (Browse x)
    have "form_of (set_form w (f\<lparr>f_folder := x\<rparr>) s) w = Some (f\<lparr>f_folder := x\<rparr>)"
      using f by (rule form_of_set_form(1))
    from update_ok_state_form [OF this] form_of_set_form(2,3) [OF f]
    have "dialog_open (form_event w e s) w idx cb tr"
      using f v i c m t cur Browse
      by (simp add: dialog_open_def form_event_def form_current_def u_on_browse_def)
    then show ?thesis ..
  next
    case ClickSave
    show ?thesis
    proof (cases "f_ok_enabled f")
      case True
      then have "dialog_closed (form_event w e s) w idx cb tr"
        using f v i c m t cur ClickSave
        by (simp add: dialog_closed_def form_event_def u_on_ok_def delete_item_def
            u_set_modal_state_def set_modal_open_def invoke_def terminal_outcome_def
            form_current_def)
      then show ?thesis ..
    next
      case False
      then have "form_event w e s = s"
        using f ClickSave by (simp add: form_event_def)
      then show ?thesis using assms by simp
    qed
  next
    case ClickCancel
    have "dialog_closed (form_event w e s) w idx cb tr"
      using f v i c m t ClickCancel
      by (simp add: dialog_closed_def form_event_def u_on_cancel_def delete_item_def
          u_set_modal_state_def set_modal_open_def invoke_def terminal_outcome_def)
    then show ?thesis ..
  next
    case ClickDelete
    have "dialog_closed (form_event w e s) w idx cb tr"
      using f v i c m t ClickDelete
      by (simp add: dialog_closed_def form_event_def u_on_delete_def delete_item_def
          u_set_modal_state_def set_modal_open_def invoke_def terminal_outcome_def)
    then show ?thesis ..
  qed
qed

lemma events_keep:
  assumes "dialog_open s w idx cb tr \<or> dialog_closed s w idx cb tr"
  shows "dialog_open (form_events w es s) w idx cb tr \<or> dialog_closed (form_events w es s) w idx cb tr"
  using assms
proof (induction es arbitrary: s)
  case Nil
  then show ?case by (simp add: form_events_def)
next
  case (Cons e es)
  have "dialog_open (form_event w e s) w idx cb tr \<or> dialog_closed (form_event w e s) w idx cb tr"
  proof (cases "dialog_open s w idx cb tr")
    case True
    then show ?thesis by (rule open_step)
  next
    case False
    with Cons.prems have cl: "dialog_closed s w idx cb tr" by simp
    then have "form_event w e s = s"
      by (simp add: dialog_closed_def closed_stays)
    with cl show ?thesis by simp
  qed
  from Cons.IH [OF this] show ?case
    by (simp add: form_events_def)
qed




section \<open>C4: which dialogs set the modal flag\<close>

text \<open>
  C4 (the code falls short of it).  The message dialogs and the help dialog are modal
  windows, but neither \<^verbatim>\<open>_show_message_dialog\<close> nor \<^verbatim>\<open>show_how_to\<close> touches the view's modal
  flag, which \<^verbatim>\<open>configure_category\<close> and \<^verbatim>\<open>show_about\<close> set on open and clear on close.
  On a fresh view the help dialog and an error dialog are on screen with the flag still
  false, and key "1" still reaches the category handler while the help dialog is open.
\<close>

theorem help_and_message_dialogs_leave_modal_flag_false:
  "modal_open (show_how_to init_view) = False
   \<and> map_option w_modal (windows (show_how_to init_view) (HowToWin 0)) = Some True
   \<and> map_option w_shown (windows (show_how_to init_view) (HowToWin 0)) = Some True
   \<and> modal_open (show_error ''x'' init_view) = False
   \<and> map_option w_modal (windows (show_error ''x'' init_view) (MsgWin 0)) = Some True
   \<and> map_option w_shown (windows (show_error ''x'' init_view) (MsgWin 0)) = Some True
   \<and> modal_open (configure_category 0 empty_category 5 init_view) = True
   \<and> modal_open (show_about init_view) = True
   \<and> modal_open (click_dismiss AboutWin (show_about init_view)) = False
   \<and> calls (press_digit 0 (show_how_to (bind_keyboard_shortcuts
         (bind_category 0 11 12 (set_categories [] init_view))))) = [(11, IdxArg 0)]"
  by code_simp

section \<open>C5: a second dialog while one is open\<close>

lemma form_event_uuid4:
  "uuid4_next (form_event w e s) = uuid4_next s"
  by (cases e)
    (simp_all add: form_event_def u_update_ok_state_def set_form_def u_on_browse_def
      u_on_ok_def u_on_cancel_def u_on_delete_def delete_item_def u_set_modal_state_def
      set_modal_open_def invoke_def form_of_def
      split: option.splits content.splits)

lemma form_events_uuid4:
  "uuid4_next (form_events w es s) = uuid4_next s"
  by (induction es arbitrary: s) (simp_all add: form_events_def form_event_uuid4)

lemma configure_category_windows:
  "uuid4_next (configure_category idx initial cb s) = Suc (uuid4_next s)"
  "w \<noteq> CfgWin idx (uuid4_next s) \<Longrightarrow>
     form_of (configure_category idx initial cb s) w = form_of s w"
  "form_of (configure_category idx initial cb s) (CfgWin idx (uuid4_next s)) \<noteq> None"
  by (simp_all add: configure_category_def Let_def u_set_modal_state_def set_modal_open_def
      u_update_ok_state_def set_form_def u_center_window_def form_of_def)

text \<open>
  C5 (as stated, refuted).  \<^verbatim>\<open>configure_category\<close> has no guard: called twice on a fresh
  view it builds two windows, and both are on screen.
\<close>

theorem two_configuration_dialogs_open:
  "map_option w_shown (windows (configure_category 0 empty_category 5
       (configure_category 0 empty_category 5 init_view)) (CfgWin 0 0)) = Some True
   \<and> map_option w_shown (windows (configure_category 0 empty_category 5
       (configure_category 0 empty_category 5 init_view)) (CfgWin 0 1)) = Some True"
  by code_simp

text \<open>
  C5 (amended).  While a category configuration dialog is open (after
  \<^verbatim>\<open>configure_category\<close> with a view instance and any user actions that have not closed
  it) the modal flag is true, so the select-folder handler, a click on the select-folder
  button and every number key leave the state as it is: no folder picker is opened and no
  callback is invoked.  \<^verbatim>\<open>configure_category\<close> itself is not guarded: a further call
  opens another dialog beside the first.
\<close>

theorem open_dialog_blocks_folder_picker_and_keys:
  assumes "view_instance s0"
    and "form_of (form_events (CfgWin idx (uuid4_next s0)) es
           (configure_category idx initial cb s0)) (CfgWin idx (uuid4_next s0)) = Some f"
  shows "modal_open (form_events (CfgWin idx (uuid4_next s0)) es
           (configure_category idx initial cb s0))
       \<and> u_on_select_folder body (form_events (CfgWin idx (uuid4_next s0)) es
           (configure_category idx initial cb s0))
         = form_events (CfgWin idx (uuid4_next s0)) es (configure_category idx initial cb s0)
       \<and> click_select_folder body (form_events (CfgWin idx (uuid4_next s0)) es
           (configure_category idx initial cb s0))
         = form_events (CfgWin idx (uuid4_next s0)) es (configure_category idx initial cb s0)
       \<and> press_digit k (form_events (CfgWin idx (uuid4_next s0)) es
           (configure_category idx initial cb s0))
         = form_events (CfgWin idx (uuid4_next s0)) es (configure_category idx initial cb s0)
       \<and> form_of (configure_category idx' initial' cb'
            (form_events (CfgWin idx (uuid4_next s0)) es (configure_category idx initial cb s0)))
           (CfgWin idx (uuid4_next s0)) = Some f
       \<and> form_of (configure_category idx' initial' cb'
            (form_events (CfgWin idx (uuid4_next s0)) es (configure_category idx initial cb s0)))
           (CfgWin idx' (Suc (uuid4_next s0))) \<noteq> None"
proof -
  let ?w = "CfgWin idx (uuid4_next s0)"
  let ?s2 = "form_events ?w es (configure_category idx initial cb s0)"
  have inv: "dialog_open ?s2 ?w idx cb (calls s0) \<or> dialog_closed ?s2 ?w idx cb (calls s0)"
    using configure_category_opens [OF assms(1), of idx initial cb] by (intro events_keep) simp
  from assms(2) have "windows ?s2 ?w \<noteq> None"
    by (auto simp add: form_of_def split: option.splits)
  with inv have "dialog_open ?s2 ?w idx cb (calls s0)"
    by (auto simp add: dialog_closed_def)
  then have m: "modal_open ?s2"
    by (auto simp add: dialog_open_def)
  have u: "uuid4_next ?s2 = Suc (uuid4_next s0)"
    by (simp add: form_events_uuid4 configure_category_windows(1))
  have ne: "?w \<noteq> CfgWin idx' (uuid4_next ?s2)"
    by (simp add: u)
  have k1: "form_of (configure_category idx' initial' cb' ?s2) ?w = Some f"
    using configure_category_windows(2) [OF ne] assms(2) by simp
  have k2: "form_of (configure_category idx' initial' cb' ?s2) (CfgWin idx' (Suc (uuid4_next s0))) \<noteq> None"
    using configure_category_windows(3) [of idx' initial' cb' ?s2] by (simp add: u)
  show ?thesis
    using m k1 k2
    by (simp add: u_on_select_folder_def click_select_folder_def press_digit_def
        u_handle_keyboard_category_def split: option.splits)
qed

theorem open_dialog_blocks_folder_picker_and_keys_witness:
  "view_instance init_view
   \<and> u_on_select_folder id
        (form_events (CfgWin 2 0) [EditName ''A'', ClickSave]
           (configure_category 2 empty_category 5 (on_select_folder 7 init_view)))
      = form_events (CfgWin 2 0) [EditName ''A'', ClickSave]
           (configure_category 2 empty_category 5 (on_select_folder 7 init_view))
   \<and> form_of (form_events (CfgWin 2 0) [EditName ''A'', ClickSave]
           (configure_category 2 empty_category 5 (on_select_folder 7 init_view))) (CfgWin 2 0)
      = Some \<lparr>f_view = True, f_idx = 2, f_callback = 5, f_name = ''A'', f_folder = [],
               f_ok_enabled = False\<rparr>"
proof -
  let ?s0 = "on_select_folder 7 init_view"
  have v: "view_instance ?s0" and u: "uuid4_next ?s0 = 0"
    by (simp_all add: init_view_def on_select_folder_def)
  have v0: "view_instance init_view"
    by (simp add: init_view_def)
  have f: "form_of (form_events (CfgWin 2 (uuid4_next ?s0)) [EditName ''A'', ClickSave]
           (configure_category 2 empty_category 5 ?s0)) (CfgWin 2 (uuid4_next ?s0))
      = Some \<lparr>f_view = True, f_idx = 2, f_callback = 5, f_name = ''A'', f_folder = [],
               f_ok_enabled = False\<rparr>"
    unfolding u by code_simp
  from open_dialog_blocks_folder_picker_and_keys [OF v f, of id 0 0 empty_category 0] f v0
  show ?thesis
    by (simp add: u)
qed

section \<open>C6: a second select-folder action while the first is in flight\<close>

text \<open>
  C6 (as stated, refuted).  \<^verbatim>\<open>_on_select_folder\<close> keeps no in-flight flag.  When the
  registered callback (handler 7) calls \<^verbatim>\<open>_on_select_folder\<close> again before it returns,
  and the modal flag is false, the callback is invoked a second time.
\<close>

theorem reentrant_select_folder_invokes_twice:
  "calls (u_on_select_folder (u_on_select_folder id) (on_select_folder 7 init_view))
   = [(7, NoArgs), (7, NoArgs)]"
  by (simp add: u_on_select_folder_def on_select_folder_def init_view_def
      set_select_folder_button_enabled_def invoke_def Let_def)

text \<open>
  C6 (amended).  While a call of \<^verbatim>\<open>_on_select_folder\<close> is in flight the select-folder
  button is disabled, so a second click on the button before the first call returns is
  ignored: the callback is invoked once, and the button is enabled again afterwards.  A
  call of \<^verbatim>\<open>_on_select_folder\<close> while the modal flag is true is a no-op.  The handler has
  no guard of its own against a direct second call.
\<close>

theorem select_folder_second_click_ignored:
  assumes "\<not> modal_open s" and "callbacks s ''select_folder'' = Some h"
    and "buttons s ''select_folder_button'' = Some b" and "b_enabled b"
    and "modal_open s'"
  shows "calls (click_select_folder (click_select_folder id) s) = calls s @ [(h, NoArgs)]
       \<and> map_option b_enabled
            (buttons (click_select_folder (click_select_folder id) s) ''select_folder_button'')
          = Some True
       \<and> map_option b_enabled
            (buttons (set_select_folder_button_enabled False s) ''select_folder_button'')
          = Some False
       \<and> u_on_select_folder body s' = s'
       \<and> click_select_folder body s' = s'"
  using assms
  by (simp add: click_select_folder_def u_on_select_folder_def
      set_select_folder_button_enabled_def invoke_def Let_def split: option.splits)

theorem select_folder_second_click_ignored_witness:
  "calls (click_select_folder (click_select_folder id) (on_select_folder 7 init_view))
     = [(7, NoArgs)]
   \<and> u_on_select_folder id (set_modal_open True init_view) = set_modal_open True init_view"
proof -
  let ?s = "on_select_folder 7 init_view"
  have a: "\<not> modal_open ?s" and b: "callbacks ?s ''select_folder'' = Some 7"
    and c: "buttons ?s ''select_folder_button'' =
      Some \<lparr>b_label = ''Select Source Folder'', b_theme = ''select_folder'', b_enabled = True\<rparr>"
    and d: "b_enabled \<lparr>b_label = ''Select Source Folder'', b_theme = ''select_folder'',
      b_enabled = True\<rparr>"
    and e: "modal_open (set_modal_open True init_view)"
    and f: "calls ?s = []"
    by (simp_all add: on_select_folder_def init_view_def set_modal_open_def)
  from select_folder_second_click_ignored [OF a b c d e, of id] f
  show ?thesis by simp
qed

section \<open>C7: what \<^verbatim>\<open>show_image\<close> puts into the image area\<close>

text \<open>
  C7 (as stated, refuted for the Tkinter front-end).  \<^verbatim>\<open>MainWindow.show_image(None)\<close>
  renders no placeholder: it clears the label's image option, so a window that showed
  photo 7 is back in the state of a freshly built window, whose label holds no image
  and has no size of its own.
\<close>

theorem tk_show_image_none_clears_label:
  "mw_show_image None (mw_show_image (Some 7) mw_init) = mw_init
   \<and> mw_image (mw_show_image None (mw_show_image (Some 7) mw_init)) = None"
  by (simp add: mw_show_image_def mw_init_def)

text \<open>
  C7 (amended).  In the Dear PyGui view, whatever the image item showed before,
  \<^verbatim>\<open>show_image(None)\<close> points it at the placeholder texture with the fixed size
  576 x 360, and \<^verbatim>\<open>show_image(photo)\<close> loads the photo's RGBA data into the image
  texture and shows that texture at the same fixed size.  In the Tkinter window
  \<^verbatim>\<open>show_image(None)\<close> removes the label's image and \<^verbatim>\<open>show_image(photo)\<close> sets the
  photo as it is.
\<close>

theorem show_image_fixed_area:
  assumes "image_display s = Some w"
  shows "show_image None s =
           Inr (s\<lparr>image_display := Some (w\<lparr>iw_texture := ''placeholder_texture'',
                  iw_width := 576, iw_height := 360\<rparr>)\<rparr>)
       \<and> show_image (Some ph) s =
           Inr (s\<lparr>image_texture := Pixels (im_rgba ph),
                 image_display := Some (w\<lparr>iw_texture := ''image_texture'',
                   iw_width := 576, iw_height := 360, iw_label := ''576x360''\<rparr>)\<rparr>)
       \<and> mw_image (mw_show_image None mw) = None
       \<and> mw_image (mw_show_image (Some p) mw) = Some p"
proof -
  have label: "str_nat 576 @ ''x'' @ str_nat 360 = ''576x360''"
    by code_simp
  show ?thesis
    using assms label
    by (simp add: show_image_def mw_show_image_def IMAGE_DISPLAY_WIDTH_def
        IMAGE_DISPLAY_HEIGHT_def)
qed

theorem show_image_fixed_area_witness:
  "image_display init_view =
     Some \<lparr>iw_texture = ''image_texture'', iw_width = 576, iw_height = 360, iw_label = []\<rparr>
   \<and> show_image None init_view =
       Inr (init_view\<lparr>image_display :=
              Some \<lparr>iw_texture = ''placeholder_texture'', iw_width = 576, iw_height = 360,
                    iw_label = []\<rparr>\<rparr>)
   \<and> mw_image (mw_show_image None mw_init) = None"
proof -
  have w: "image_display init_view =
      Some \<lparr>iw_texture = ''image_texture'', iw_width = 576, iw_height = 360, iw_label = []\<rparr>"
    by (simp add: init_view_def IMAGE_DISPLAY_WIDTH_def IMAGE_DISPLAY_HEIGHT_def)
  from show_image_fixed_area [OF w, of "\<lparr>im_mode = ''RGB'', im_rgba = [255, 0, 0, 255]\<rparr>" mw_init 0] w
  show ?thesis by simp
qed

section \<open>C8: the grid that \<^verbatim>\<open>set_categories\<close> builds\<close>

lemma set_categories_ids:
  "category_button_ids (set_categories cats s) idx =
     (if 0 \<le> idx \<and> idx \<le> 8 then Some (uuid_next s + nat idx + nat idx div 3 + 1) else None)"
proof (cases "0 \<le> idx \<and> idx \<le> 8")
  case True
  then have "idx \<in> {0, 1, 2, 3, 4, 5, 6, 7, 8}" by auto
  then show ?thesis
    by (auto simp add: set_categories_def row_lookup)
next
  case False
  then show ?thesis
    by (auto simp add: set_categories_def row_lookup)
qed

lemma set_categories_dom:
  "dom (category_button_ids (set_categories cats s)) = {0..8}"
  by (auto simp add: set_categories_ids dom_def)

lemma set_categories_items:
  "dom (cat_items (set_categories cats s)) =
     (\<lambda>k. uuid_next s + k) ` {1, 2, 3, 5, 6, 7, 9, 10, 11}"
  by (auto simp add: set_categories_def row_lookup dom_def split: if_splits)

lemma set_categories_nine:
  "card (dom (cat_items (set_categories cats s))) = 9"
proof -
  have "inj_on (\<lambda>k. uuid_next s + k) {1, 2, 3, 5, 6, 7, 9, 10, 11}"
    by (simp add: inj_on_def)
  then show ?thesis
    unfolding set_categories_items by (simp add: card_image)
qed

lemma item_theme:
  "cb_theme (category_button_item idx (category_at cats i) p) =
     (if is_defined cats i then ''category_defined'' else ''category'')"
  by (simp add: category_button_item_def category_at_def is_defined_def cat_truthy_def
      dict_get_def py_truthy_def empty_category_def Let_def split: option.splits)

text \<open>
  C8 (as stated, refuted for the Tkinter front-end).  The Tkinter grid shows the state
  of a slot by the button's label alone.  A defined entry whose name is
  \<^verbatim>\<open>Select a category\<close> gives exactly the window that an empty list gives: its button is
  not told apart from an unconfigured one.
\<close>

theorem tk_defined_button_looks_unconfigured:
  "is_defined [[''name'' \<mapsto> ''Select a category'', ''path'' \<mapsto> ''/x'']] 0
   \<and> \<not> is_defined [] 0
   \<and> mw_set_categories [[''name'' \<mapsto> ''Select a category'', ''path'' \<mapsto> ''/x'']] mw_init
     = mw_set_categories [] mw_init"
  by (simp add: is_defined_def cat_truthy_def mw_set_categories_def mw_rebuild_category_grid_def
      mw_init_def mw_new_button_def mw_button_text_def upt_rec)

text \<open>
  C8 (amended).  For every list of entries (empty, shorter or longer than 9),
  \<^verbatim>\<open>set_categories\<close> leaves exactly 9 buttons, for the indices 0..8.  Dear PyGui view:
  button \<open>i\<close> has the theme \<open>category_defined\<close> if and only if entry \<open>i\<close> exists with a
  non-empty name and a non-empty path, and the theme \<open>category\<close> otherwise.  Tkinter
  window (given a column count that is not zero): button \<open>i\<close> is labelled with the name
  of entry \<open>i\<close> if that entry is defined and with \<^verbatim>\<open>Select a category\<close> otherwise, so it
  shows the unconfigured label if and only if the entry is not defined or is named
  \<^verbatim>\<open>Select a category\<close>.
\<close>

theorem set_categories_grid:
  assumes "mw_set_categories cats w = Inr w1" and "i < 9"
  shows "map_option cb_theme (category_button (set_categories cats s) idx)
           = (if 0 \<le> idx \<and> idx \<le> 8
              then Some (if is_defined cats (nat idx) then ''category_defined'' else ''category'')
              else None)
       \<and> dom (category_button_ids (set_categories cats s)) = {0..8}
       \<and> card (dom (cat_items (set_categories cats s))) = 9
       \<and> length (mw_cat_buttons w1) = 9
       \<and> btn_text (mw_cat_buttons w1 ! i)
           = (if is_defined cats i then str_nat (i + 1) @ '': '' @ the ((cats ! i) ''name'')
              else str_nat (i + 1) @ '': Select a category'')
       \<and> (btn_text (mw_cat_buttons w1 ! i) = str_nat (i + 1) @ '': Select a category'')
           = (\<not> is_defined cats i \<or> the ((cats ! i) ''name'') = ''Select a category'')"
proof -
  have b: "mw_cat_buttons w1 = map (mw_new_button cats (mw_current_columns w)) [0..<9]"
    using assms(1) by (rule mw_set_categories_buttons(1))
  have t: "btn_text (mw_cat_buttons w1 ! i)
           = (if is_defined cats i then str_nat (i + 1) @ '': '' @ the ((cats ! i) ''name'')
              else str_nat (i + 1) @ '': Select a category'')"
    using assms(2) unfolding b
    by (simp add: mw_new_button_def mw_button_text_def is_defined_def del: upt_Suc)
  have l: "length (mw_cat_buttons w1) = 9"
    unfolding b by simp
  show ?thesis
    using t l by (simp add: set_categories_button item_theme set_categories_dom set_categories_nine)
qed

theorem set_categories_grid_witness:
  "mw_set_categories [[''name'' \<mapsto> ''A'', ''path'' \<mapsto> ''/x'']] mw_init
     = Inr (projr (mw_set_categories [[''name'' \<mapsto> ''A'', ''path'' \<mapsto> ''/x'']] mw_init))
   \<and> map_option cb_theme
        (category_button (set_categories [[''name'' \<mapsto> ''A'', ''path'' \<mapsto> ''/x'']] init_view) 0)
      = Some ''category_defined''
   \<and> map_option cb_theme
        (category_button (set_categories [[''name'' \<mapsto> ''A'', ''path'' \<mapsto> ''/x'']] init_view) 1)
      = Some ''category''
   \<and> btn_text (mw_cat_buttons
        (projr (mw_set_categories [[''name'' \<mapsto> ''A'', ''path'' \<mapsto> ''/x'']] mw_init)) ! 0)
      = ''1: A''"
proof -
  let ?cats = "[[''name'' \<mapsto> ''A'', ''path'' \<mapsto> ''/x'']] :: category list"
  have h: "mw_set_categories ?cats mw_init = Inr (projr (mw_set_categories ?cats mw_init))"
    by (simp add: mw_set_categories_def mw_rebuild_category_grid_def mw_init_def)
  have d: "is_defined ?cats 0" "\<not> is_defined ?cats 1"
    by (simp_all add: is_defined_def cat_truthy_def)
  have n: "str_nat (0 + 1) = ''1''"
    by code_simp
  have z: "(0::nat) < 9" by simp
  from set_categories_grid [OF h z, of init_view 0] set_categories_grid [OF h z, of init_view 1]
  show ?thesis
    using h d n by simp
qed

section \<open>C9: the feedback pulse of a category button\<close>

text \<open>
  C9 (the code falls short of it).  Slot 0 holds a name but no path, so its button rests
  in the plain \<open>category\<close> theme (button 1 of the grid).  Two activations in a row cancel
  the first timer (0) and leave the second (1) as the only pending one, as the claim
  says; but when that timer fires, \<^verbatim>\<open>restore_theme\<close> decides by the label alone (no
  \<^verbatim>\<open>[Empty]\<close> in it) and binds the \<open>category_defined\<close> theme, which is not the theme the
  button rested in.
\<close>

theorem feedback_restores_wrong_theme_for_name_without_path:
  "(let s0 = set_categories [[''name'' \<mapsto> ''A'', ''path'' \<mapsto> []]] init_view;
        s2 = u_show_button_feedback 0 (u_show_button_feedback 0 s0);
        s3 = fire_timer 1 s2
    in category_button_ids s0 0 = Some 1
     \<and> map_option cb_theme (cat_items s0 1) = Some ''category''
     \<and> \<not> timer_pending s2 0 \<and> timer_pending s2 1
     \<and> map_option cb_theme (cat_items s2 1) = Some ''category_feedback''
     \<and> map_option cb_theme (cat_items s3 1) = Some ''category_defined''
     \<and> feedback_timers s3 (CatKey 0) = None)"
  by code_simp

subsection \<open>The part of C9 that holds\<close>

lemma feedback_unfold:
  assumes "category_button_ids s idx = Some b"
  shows "timers (u_show_button_feedback idx s) =
           (case feedback_timers s (CatKey idx) of
              Some (TimerObj t) \<Rightarrow> timers (cancel_timer t s)
            | _ \<Rightarrow> timers s)
           (timer_next s \<mapsto> \<lparr>tm_restore = RestoreCategory b idx, tm_cancelled = False, tm_fired = False\<rparr>)"
    and "feedback_timers (u_show_button_feedback idx s) = (feedback_timers s)(CatKey idx \<mapsto> TimerObj (timer_next s))"
    and "timer_next (u_show_button_feedback idx s) = Suc (timer_next s)"
    and "category_button_ids (u_show_button_feedback idx s) = category_button_ids s"
  using assms
  by (simp_all add: u_show_button_feedback_def bind_cat_theme_def start_timer_def
      cancel_timer_def Let_def split: option.splits fb_val.splits)

lemma cancel_timer_timers:
  "timers (cancel_timer t s) u =
     (if u = t then map_option (\<lambda>tm. tm\<lparr>tm_cancelled := True\<rparr>) (timers s t) else timers s u)"
  by (simp add: cancel_timer_def split: option.splits)

text \<open>
  For every button of the grid and every state: activating the button twice in a row
  leaves its newest timer as the one recorded for the button and pending, and the timer
  of the first activation cancelled; the records of the other buttons and every older
  timer that was not this button's stay as they were.
\<close>

theorem feedback_retrigger_one_pending_timer:
  assumes "category_button_ids s idx = Some b"
  shows "feedback_timers (u_show_button_feedback idx (u_show_button_feedback idx s)) (CatKey idx)
           = Some (TimerObj (Suc (timer_next s)))
       \<and> timer_pending (u_show_button_feedback idx (u_show_button_feedback idx s)) (Suc (timer_next s))
       \<and> \<not> timer_pending (u_show_button_feedback idx (u_show_button_feedback idx s)) (timer_next s)
       \<and> (\<forall>j. j \<noteq> idx \<longrightarrow>
             feedback_timers (u_show_button_feedback idx (u_show_button_feedback idx s)) (CatKey j)
             = feedback_timers s (CatKey j))
       \<and> (\<forall>t. t < timer_next s \<longrightarrow> feedback_timers s (CatKey idx) \<noteq> Some (TimerObj t) \<longrightarrow>
             timers (u_show_button_feedback idx (u_show_button_feedback idx s)) t = timers s t)"
proof -
  let ?s1 = "u_show_button_feedback idx s"
  let ?s2 = "u_show_button_feedback idx ?s1"
  note u1 = feedback_unfold [OF assms]
  have b1: "category_button_ids ?s1 idx = Some b"
    using assms by (simp add: u1(4))
  note u2 = feedback_unfold [OF b1]
  have f1: "feedback_timers ?s1 (CatKey idx) = Some (TimerObj (timer_next s))"
    by (simp add: u1(2))
  have t2: "timers ?s2 = (timers (cancel_timer (timer_next s) ?s1))
      (Suc (timer_next s) \<mapsto> \<lparr>tm_restore = RestoreCategory b idx, tm_cancelled = False, tm_fired = False\<rparr>)"
    by (simp add: u2(1) f1 u1(3))
  have new1: "timers ?s1 (timer_next s) =
      Some \<lparr>tm_restore = RestoreCategory b idx, tm_cancelled = False, tm_fired = False\<rparr>"
    by (simp add: u1(1))
  have a: "feedback_timers ?s2 (CatKey idx) = Some (TimerObj (Suc (timer_next s)))"
    by (simp add: u2(2) u1(3))
  have p: "timer_pending ?s2 (Suc (timer_next s))"
    by (simp add: timer_pending_def t2)
  have q: "\<not> timer_pending ?s2 (timer_next s)"
    by (simp add: timer_pending_def t2 cancel_timer_timers new1)
  have r: "feedback_timers ?s2 (CatKey j) = feedback_timers s (CatKey j)" if "j \<noteq> idx" for j
    using that by (simp add: u2(2) u1(2))
  have o: "timers ?s2 t = timers s t"
    if "t < timer_next s" and "feedback_timers s (CatKey idx) \<noteq> Some (TimerObj t)" for t
  proof -
    have "timers ?s2 t = timers ?s1 t"
      using that(1) by (simp add: t2 cancel_timer_timers)
    also have "\<dots> = timers s t"
      using that by (simp add: u1(1) cancel_timer_timers split: option.splits fb_val.splits)
    finally show ?thesis .
  qed
  from a p q r o show ?thesis by blast
qed

theorem feedback_retrigger_one_pending_timer_witness:
  "category_button_ids (set_categories [] init_view) 3 = Some 5
   \<and> timer_pending (u_show_button_feedback 3 (u_show_button_feedback 3
        (u_show_button_feedback 4 (set_categories [] init_view)))) 2
   \<and> \<not> timer_pending (u_show_button_feedback 3 (u_show_button_feedback 3
        (u_show_button_feedback 4 (set_categories [] init_view)))) 1
   \<and> timer_pending (u_show_button_feedback 3 (u_show_button_feedback 3
        (u_show_button_feedback 4 (set_categories [] init_view)))) 0"
proof -
  let ?s = "u_show_button_feedback 4 (set_categories [] init_view)"
  have h: "category_button_ids ?s 3 = Some 5" and n: "timer_next ?s = 1"
    and b: "category_button_ids (set_categories [] init_view) 3 = Some 5"
    and z: "timer_pending ?s 0" and f: "feedback_timers ?s (CatKey 3) \<noteq> Some (TimerObj 0)"
    by code_simp+
  from feedback_retrigger_one_pending_timer [OF h] n z f b
  show ?thesis
    by (simp add: timer_pending_def numeral_2_eq_2)
qed

section \<open>C10: the status line\<close>

text \<open>
  How the pattern of \<^verbatim>\<open>MainWindow.update_status\<close> splits a text: a counter, after any
  white space, matches at the first position from which only white space and the counter
  follow, and a prefix that ends in a character other than white space is never part of
  the match.
\<close>

lemma digits_then_ok:
  assumes "d \<noteq> []" and "\<forall>x\<in>set d. py_isdigit x" and "\<not> py_isdigit c"
  shows "digits_then c (d @ c # r) = Some (d, r)"
proof -
  have t: "takeWhile py_isdigit (d @ c # r) = d"
    using assms(2,3) by (simp add: takeWhile_tail)
  have dr: "dropWhile py_isdigit (d @ c # r) = c # r"
    using assms(2,3) by (simp add: dropWhile_append2)
  show ?thesis
    using assms(1) by (simp add: digits_then_def t dr)
qed

lemma digits_then_keeps_paren:
  assumes "digits_then c s = Some (d, r)" and "CHR ''('' \<in> set s" and "c \<noteq> CHR ''(''"
  shows "CHR ''('' \<in> set r"
proof -
  from assms(1) have dr: "dropWhile py_isdigit s = c # r" and d: "d = takeWhile py_isdigit s"
    by (auto simp add: digits_then_def split: if_splits list.splits)
  have s: "s = d @ c # r"
    using takeWhile_dropWhile_id [of py_isdigit s] dr d by simp
  have "CHR ''('' \<notin> set d"
  proof
    assume "CHR ''('' \<in> set d"
    then have "py_isdigit (CHR ''('')"
      unfolding d by (rule set_takeWhileD [THEN conjunct2])
    then show False by (simp add: py_isdigit_def)
  qed
  with assms(2,3) s show ?thesis by auto
qed

lemma counter_tail_ok:
  assumes "\<forall>x\<in>set ws. py_isspace x"
    and "d1 \<noteq> []" and "\<forall>x\<in>set d1. py_isdigit x"
    and "d2 \<noteq> []" and "\<forall>x\<in>set d2. py_isdigit x"
    and "nl = [] \<or> nl = [CHR 0x0A]"
  shows "counter_tail ((ws @ ''('' @ d1 @ ''/'' @ d2 @ '')'') @ nl)
         = Some (ws @ ''('' @ d1 @ ''/'' @ d2 @ '')'')"
proof -
  let ?rest = "d1 @ CHR ''/'' # d2 @ CHR '')'' # nl"
  have np: "\<not> py_isspace (CHR ''('')"
    by (simp add: py_isspace_def)
  have e: "(ws @ ''('' @ d1 @ ''/'' @ d2 @ '')'') @ nl = ws @ CHR ''('' # ?rest"
    by simp
  have t: "takeWhile py_isspace (ws @ CHR ''('' # ?rest) = ws"
    using assms(1) np by (simp add: takeWhile_tail)
  have d: "dropWhile py_isspace (ws @ CHR ''('' # ?rest) = CHR ''('' # ?rest"
    using assms(1) np by (simp add: dropWhile_append2)
  have nd: "\<not> py_isdigit (CHR ''/'')" "\<not> py_isdigit (CHR '')'')"
    by (simp_all add: py_isdigit_def)
  have p1: "digits_then (CHR ''/'') ?rest = Some (d1, d2 @ CHR '')'' # nl)"
    using digits_then_ok [OF assms(2,3) nd(1)] by simp
  have p2: "digits_then (CHR '')'') (d2 @ CHR '')'' # nl) = Some (d2, nl)"
    using digits_then_ok [OF assms(4,5) nd(2)] by simp
  show ?thesis
    unfolding e using assms(6) by (simp add: counter_tail_def t d p1 p2)
qed

lemma counter_tail_none:
  assumes "r \<noteq> []" and "\<not> py_isspace (last r)" and "CHR ''('' \<in> set t"
  shows "counter_tail (r @ t) = None"
proof -
  have ex: "\<exists>x\<in>set r. \<not> py_isspace x"
    using assms(1,2) last_in_set by blast
  then have "dropWhile py_isspace r \<noteq> []"
    by (simp add: dropWhile_eq_Nil_conv)
  then obtain c r' where cr: "dropWhile py_isspace r = c # r'"
    by (cases "dropWhile py_isspace r") auto
  have dw: "dropWhile py_isspace (r @ t) = c # r' @ t"
    using ex cr by (auto simp add: dropWhile_append1)
  show ?thesis
  proof (cases "c = CHR ''(''")
    case False
    then show ?thesis by (simp add: counter_tail_def dw)
  next
    case True
    have in1: "CHR ''('' \<in> set (r' @ t)"
      using assms(3) by simp
    show ?thesis
    proof (cases "digits_then (CHR ''/'') (r' @ t)")
      case None
      then show ?thesis by (simp add: counter_tail_def dw)
    next
      case (Some p1)
      obtain d1 r3 where p1: "p1 = (d1, r3)" by (cases p1)
      have in3: "CHR ''('' \<in> set r3"
        using digits_then_keeps_paren [OF Some [unfolded p1] in1] by simp
      show ?thesis
      proof (cases "digits_then (CHR '')'') r3")
        case None
        then show ?thesis by (simp add: counter_tail_def dw Some p1)
      next
        case (Some p2)
        obtain d2 r5 where p2: "p2 = (d2, r5)" by (cases p2)
        have "CHR ''('' \<in> set r5"
          using digits_then_keeps_paren [OF Some [unfolded p2] in3] by simp
        then have "r5 \<noteq> [] \<and> r5 \<noteq> [CHR 0x0A]"
          by auto
        then show ?thesis
          using \<open>digits_then (CHR ''/'') (r' @ t) = Some p1\<close>
          by (simp add: counter_tail_def dw p1 Some p2)
      qed
    qed
  qed
qed

lemma status_match_splits:
  assumes "\<forall>x\<in>set name. x \<noteq> CHR 0x0A"
    and "name = [] \<or> \<not> py_isspace (last name)"
    and "counter_tail t = Some g" and "CHR ''('' \<in> set t"
  shows "status_match acc (name @ t) = Some (rev acc @ name, g)"
  using assms(1,2)
proof (induction name arbitrary: acc)
  case Nil
  from assms(4) obtain c cs where "t = c # cs"
    by (cases t) auto
  then show ?case using assms(3) by simp
next
  case (Cons x xs)
  have none: "counter_tail ((x # xs) @ t) = None"
    using Cons.prems(2) assms(4) by (intro counter_tail_none) simp_all
  have nx: "x \<noteq> CHR 0x0A" and rest: "\<forall>y\<in>set xs. y \<noteq> CHR 0x0A"
    using Cons.prems(1) by simp_all
  have "xs = [] \<or> \<not> py_isspace (last xs)"
    using Cons.prems(2) by (cases xs) auto
  from Cons.IH [OF rest this, of "x # acc"] none nx
  show ?case by simp
qed

lemma digits_then_split:
  assumes "digits_then c s = Some (d, r)"
  shows "s = d @ c # r"
proof -
  from assms have dr: "dropWhile py_isdigit s = c # r" and d: "d = takeWhile py_isdigit s"
    by (auto simp add: digits_then_def split: if_splits list.splits)
  show ?thesis
    using takeWhile_dropWhile_id [of py_isdigit s] dr d by simp
qed

lemma counter_tail_ends:
  assumes "counter_tail s = Some g"
  shows "\<exists>pre. s = pre @ '')'' \<or> s = pre @ '')'' @ [CHR 0x0A]"
proof -
  from assms obtain r1 d1 r3 d2 r5 where
    dw: "dropWhile py_isspace s = CHR ''('' # r1"
    and p1: "digits_then (CHR ''/'') r1 = Some (d1, r3)"
    and p2: "digits_then (CHR '')'') r3 = Some (d2, r5)"
    and r5: "r5 = [] \<or> r5 = [CHR 0x0A]"
    by (auto simp add: counter_tail_def split: list.splits if_splits option.splits)
  have "s = takeWhile py_isspace s @ CHR ''('' # r1"
    using takeWhile_dropWhile_id [of py_isspace s] dw by simp
  also have "r1 = d1 @ CHR ''/'' # r3"
    using p1 by (rule digits_then_split)
  also have "r3 = d2 @ CHR '')'' # r5"
    using p2 by (rule digits_then_split)
  finally have e: "s = (takeWhile py_isspace s @ CHR ''('' # d1 @ CHR ''/'' # d2) @ '')'' @ r5"
    by simp
  show ?thesis
  proof (cases "r5 = []")
    case True
    with e have "s = (takeWhile py_isspace s @ CHR ''('' # d1 @ CHR ''/'' # d2) @ '')''"
      by simp
    then show ?thesis by blast
  next
    case False
    with r5 e have "s = (takeWhile py_isspace s @ CHR ''('' # d1 @ CHR ''/'' # d2) @ '')'' @ [CHR 0x0A]"
      by simp
    then show ?thesis by blast
  qed
qed

lemma status_match_ends:
  assumes "status_match acc msg = Some r"
  shows "\<exists>pre. msg = pre @ '')'' \<or> msg = pre @ '')'' @ [CHR 0x0A]"
  using assms
proof (induction msg arbitrary: acc)
  case Nil
  then show ?case by (simp add: counter_tail_def)
next
  case (Cons c cs)
  show ?case
  proof (cases "counter_tail (c # cs)")
    case (Some g)
    then show ?thesis by (rule counter_tail_ends)
  next
    case None
    with Cons.prems have "status_match (c # acc) cs = Some r"
      by (simp split: if_splits)
    from Cons.IH [OF this] obtain pre where "cs = pre @ '')'' \<or> cs = pre @ '')'' @ [CHR 0x0A]"
      by blast
    then have "c # cs = (c # pre) @ '')'' \<or> c # cs = (c # pre) @ '')'' @ [CHR 0x0A]"
      by simp
    then show ?thesis by blast
  qed
qed

lemma round_half_even_nearest:
  assumes "0 \<le> x"
  shows "\<bar>of_nat (round_half_even x) - x\<bar> \<le> 1 / 2"
proof -
  have n: "of_nat (nat \<lfloor>x\<rfloor>) = (of_int \<lfloor>x\<rfloor> :: rat)"
    using assms by simp
  have lo: "of_int \<lfloor>x\<rfloor> \<le> x" and hi: "x < of_int \<lfloor>x\<rfloor> + 1"
    by linarith+
  show ?thesis
    using lo hi n by (auto simp add: round_half_even_def Let_def)
qed

text \<open>
  C10 (as stated, refuted at the edges of the pattern).  A text that ends with the
  counter \<^verbatim>\<open> (1/2)\<close> but has a line break before it does not match (the dot of the
  pattern stops at a newline), so the size is appended after the counter; and a counter
  that is not of the form \<^verbatim>\<open> (i/n)\<close> because no space precedes it still matches, so the
  size is inserted and not appended.
\<close>

theorem tk_status_line_off_pattern:
  "mw_status (mw_update_status (''a'' @ [CHR 0x0A] @ ''b (1/2)'') (Some 5) mw_init)
     = ''a'' @ [CHR 0x0A] @ ''b (1/2) [5 KB]''
   \<and> mw_status (mw_update_status ''a.jpg(3/10)'' (Some (27 / 2)) mw_init)
     = ''a.jpg [14 KB] (3/10)''"
  by code_simp

text \<open>
  C10 (amended).  Tkinter window, size given: when the text is a prefix without line
  break that is empty or ends in a character other than white space, then any white
  space, then a counter \<^verbatim>\<open>(i/n)\<close> of two non-empty digit strings, then at most one final
  newline, the status becomes the stripped prefix, \<^verbatim>\<open> [N KB]\<close>, one space, and the white
  space and counter as they were; when the text does not end in \<^verbatim>\<open>)\<close> (or \<^verbatim>\<open>)\<close> and a
  newline), \<^verbatim>\<open> [N KB]\<close> is appended to it.  \<open>N\<close> is the size rounded to the nearest
  integer.  Dear PyGui view, size given: \<^verbatim>\<open> [N.N KB]\<close>, the size rounded to one decimal,
  is appended to the text.  In both, without a size the status is the text as given.
  (Rounding is stated for sizes that are not negative.)
\<close>

theorem update_status_formats:
  assumes "\<forall>x\<in>set name. x \<noteq> CHR 0x0A" and "name = [] \<or> \<not> py_isspace (last name)"
    and "\<forall>x\<in>set ws. py_isspace x"
    and "i \<noteq> []" and "\<forall>x\<in>set i. py_isdigit x"
    and "n \<noteq> []" and "\<forall>x\<in>set n. py_isdigit x"
    and "nl = [] \<or> nl = [CHR 0x0A]"
    and "\<not> (\<exists>pre. other = pre @ '')'' \<or> other = pre @ '')'' @ [CHR 0x0A])"
    and "0 \<le> kb"
  shows "mw_status (mw_update_status (name @ (ws @ ''('' @ i @ ''/'' @ n @ '')'') @ nl) (Some kb) w)
           = py_strip name @ '' ['' @ format_f0 kb @ '' KB]'' @ '' ''
               @ ws @ ''('' @ i @ ''/'' @ n @ '')''
       \<and> mw_status (mw_update_status other (Some kb) w) = other @ '' ['' @ format_f0 kb @ '' KB]''
       \<and> mw_status (mw_update_status txt None w) = txt
       \<and> status_text (update_status txt (Some kb) s) = txt @ '' ['' @ format_f1 kb @ '' KB]''
       \<and> status_text (update_status txt None s) = txt
       \<and> format_f0 kb = str_nat (round_half_even kb)
       \<and> \<bar>of_nat (round_half_even kb) - kb\<bar> \<le> 1 / 2
       \<and> format_f1 kb = str_nat (round_half_even (kb * 10) div 10) @ ''.''
                          @ [digit_char (round_half_even (kb * 10))]
       \<and> \<bar>of_nat (round_half_even (kb * 10)) / 10 - kb\<bar> \<le> 1 / 20"
proof -
  let ?t = "ws @ ''('' @ i @ ''/'' @ n @ '')''"
  have ct: "counter_tail (?t @ nl) = Some ?t"
    using assms(3-8) by (rule counter_tail_ok)
  have "CHR ''('' \<in> set (?t @ nl)"
    by simp
  from status_match_splits [OF assms(1,2) ct this, of "[]"]
  have m: "status_match [] (name @ ?t @ nl) = Some (name, ?t)"
    by simp
  have o: "status_match [] other = None"
  proof (cases "status_match [] other")
    case (Some r)
    from status_match_ends [OF this] assms(9) show ?thesis by blast
  qed simp
  have a: "\<bar>kb\<bar> = kb"
    using assms(10) by simp
  have r1: "\<bar>of_nat (round_half_even kb) - kb\<bar> \<le> 1 / 2"
    using assms(10) by (rule round_half_even_nearest)
  have "0 \<le> kb * 10"
    using assms(10) by simp
  from round_half_even_nearest [OF this]
  have r2: "\<bar>of_nat (round_half_even (kb * 10)) / 10 - kb\<bar> \<le> 1 / 20"
    by (simp add: field_simps abs_le_iff)
  have f0: "format_f0 kb = str_nat (round_half_even kb)"
    using assms(10) by (simp add: format_f0_def a)
  have f1: "format_f1 kb = str_nat (round_half_even (kb * 10) div 10) @ ''.''
                          @ [digit_char (round_half_even (kb * 10))]"
    using assms(10) by (simp add: format_f1_def a Let_def)
  have s1: "mw_status (mw_update_status (name @ ?t @ nl) (Some kb) w)
           = py_strip name @ '' ['' @ format_f0 kb @ '' KB]'' @ '' '' @ ?t"
    using m by (simp add: mw_update_status_def mw_status_text_def)
  have s2: "mw_status (mw_update_status other (Some kb) w) = other @ '' ['' @ format_f0 kb @ '' KB]''"
    using o by (simp add: mw_update_status_def mw_status_text_def)
  have s3: "mw_status (mw_update_status txt None w) = txt"
    by (simp add: mw_update_status_def mw_status_text_def)
  have s4: "status_text (update_status txt (Some kb) s) = txt @ '' ['' @ format_f1 kb @ '' KB]''"
    "status_text (update_status txt None s) = txt"
    by (simp_all add: update_status_def)
  from s1 s2 s3 s4 f0 r1 f1 r2 show ?thesis
    by (intro conjI)
qed

theorem update_status_formats_witness:
  "mw_status (mw_update_status ''a.jpg (3/10)'' (Some (25 / 2)) mw_init)
     = ''a.jpg [12 KB]  (3/10)''
   \<and> status_text (update_status ''a.jpg (3/10)'' (Some (25 / 2)) init_view)
     = ''a.jpg (3/10) [12.5 KB]''
   \<and> mw_status (mw_update_status [] (Some (25 / 2)) mw_init) = '' [12 KB]''"
proof -
  have h1: "\<forall>x\<in>set ''a.jpg''. x \<noteq> CHR 0x0A"
    and h2: "''a.jpg'' = [] \<or> \<not> py_isspace (last ''a.jpg'')"
    and h3: "\<forall>x\<in>set '' ''. py_isspace x"
    and h4: "''3'' \<noteq> []" and h5: "\<forall>x\<in>set ''3''. py_isdigit x"
    and h6: "''10'' \<noteq> []" and h7: "\<forall>x\<in>set ''10''. py_isdigit x"
    and h8: "([]::string) = [] \<or> ([]::string) = [CHR 0x0A]"
    and h9: "\<not> (\<exists>pre. ([]::string) = pre @ '')'' \<or> ([]::string) = pre @ '')'' @ [CHR 0x0A])"
    and h10: "(0::rat) \<le> 25 / 2"
    by (simp_all add: py_isspace_def py_isdigit_def)
  have e1: "py_strip ''a.jpg'' = ''a.jpg''"
    by (simp add: py_strip_def py_isspace_def)
  have e2: "format_f0 (25 / 2) = ''12''" and e3: "format_f1 (25 / 2) = ''12.5''"
    by code_simp+
  from update_status_formats [OF h1 h2 h3 h4 h5 h6 h7 h8 h9 h10, of mw_init "''a.jpg (3/10)''" init_view]
    e1 e2 e3
  show ?thesis by simp
qed

end
